theory Spec2Isabelle
  imports Complex_Main "HOL-Library.AList"
begin

section \<open>Data model of \<^verbatim>\<open>src/main.js\<close>\<close>

text \<open>
  The repository holds several versions of one pipeline. The one modelled here is
  \<^verbatim>\<open>src/main.js\<close>: two reference strategies (\<^verbatim>\<open>calculateSimpleRevenue\<close>,
  \<^verbatim>\<open>calculateBonusByProfit\<close>) and \<^verbatim>\<open>analyzeSalesData(data, options)\<close>. The other
  versions are not modelled; they differ from it in the points the claims turn on (some
  add the item revenues to the seller's revenue, test the last place before the first
  places in the bonus strategy and break ties between top products by SKU; one also
  requires \<^verbatim>\<open>data.customers\<close>), and none of them catches an exception of a strategy.

  Modelling decisions:
  \<^item> JavaScript numbers are modelled as exact rationals (\<^typ>\<open>rat\<close>); the rounding of
    IEEE doubles, \<^verbatim>\<open>NaN\<close> and infinities are outside the model. Counters that the
    code only increments by one are \<^typ>\<open>nat\<close>.
  \<^item> The objects of the input are records: every object has the fields the code
    reads, the numeric ones hold numbers, and a strategy returns a number when it
    returns. A field that the code tests with
    \<^verbatim>\<open>Array.isArray\<close> is an \<^typ>\<open>'a list option\<close>, \<^term>\<open>None\<close> standing for
    "absent or not an array"; \<^verbatim>\<open>data\<close> and \<^verbatim>\<open>options\<close> themselves are options,
    \<^term>\<open>None\<close> standing for a falsy argument.
  \<^item> An exception that leaves \<^verbatim>\<open>analyzeSalesData\<close> is a value \<^term>\<open>Inl e\<close> of the sum
    type; the messages of the source are the constructors of \<open>error\<close>. What a strategy
    throws is a value of \<open>thrown\<close>; the \<^verbatim>\<open>catch\<close> of the item loop reads its \<^verbatim>\<open>message\<close>,
    which raises for \<^verbatim>\<open>null\<close> and \<^verbatim>\<open>undefined\<close>.
  \<^item> A plain object used as a dictionary is a map (the two lookup indexes) or, where
    \<^verbatim>\<open>Object.entries\<close> enumerates it, an association list in insertion order
    (\<^verbatim>\<open>products_sold\<close>). The map and the object differ on two kinds of keys: a name
    inherited from \<^verbatim>\<open>Object.prototype\<close> (\<^verbatim>\<open>toString\<close>, \<^verbatim>\<open>constructor\<close>, \<^verbatim>\<open>__proto__\<close>, ...) is
    found in the object though no entry was stored for it, and \<^verbatim>\<open>Object.entries\<close> lists
    array indexes (\<^verbatim>\<open>"2"\<close>, \<^verbatim>\<open>"10"\<close>) first, in numeric order. With such a key the source
    computes with \<^verbatim>\<open>NaN\<close> and strings, which the model does not have. The predicates
    \<open>plain_name\<close> and \<open>array_index\<close> below name these keys, and the theorems that
    depend on a lookup or on the order of \<^verbatim>\<open>products_sold\<close> assume that the seller ids and
    SKUs of the receipts are not among them (SKUs look like \<^verbatim>\<open>SKU_001\<close>).
  \<^item> \<^verbatim>\<open>sellerIndex\<close> holds references to the very objects of \<^verbatim>\<open>sellerStats\<close>; the
    model keeps the array and lets the index map an id to a position in it, so that
    an update through the index is an update of the array.
  \<^item> \<^verbatim>\<open>console\<close> output is not modelled (formatting the logged values is taken not to
    throw); what the arguments of a \<^verbatim>\<open>console\<close> call raise when they are evaluated is.
\<close>

record item =
  item_sku :: string
  quantity :: rat
  sale_price :: rat
  discount :: "rat option"

record product =
  product_sku :: string
  purchase_price :: rat

record customer =
  customer_id :: string

record seller =
  s_id :: string
  first_name :: string
  last_name :: string

record purchase_record =
  receipt_id :: string
  seller_id :: string
  total_amount :: rat
  items :: "item list"

record data =
  customers :: "customer list option"
  products :: "product list option"
  sellers :: "seller list option"
  purchase_records :: "purchase_record list option"

text \<open>The accumulator built by \<^verbatim>\<open>data.sellers.map(seller => ({...}))\<close>.\<close>

record seller_stat =
  stat_id :: string
  name :: string
  revenue :: rat
  profit :: rat
  sales_count :: nat
  products_sold :: "(string \<times> rat) list"

text \<open>The objects of the returned array.\<close>

record report_entry =
  entry_seller_id :: string
  entry_name :: string
  entry_revenue :: rat
  entry_profit :: rat
  entry_sales_count :: nat
  top_products :: "string list"
  bonus :: rat

datatype error =
    InvalidInputData
  | OptionsNotGiven
  | StrategiesMissing
  | StrategiesNotFunctions
  | NoValidPurchases
  | NoSalesData
  | TypeError
  | Thrown string

text \<open>
  What a strategy throws: \<^verbatim>\<open>null\<close> or \<^verbatim>\<open>undefined\<close>; a value whose \<^verbatim>\<open>message\<close> property
  can be read (an \<^verbatim>\<open>Error\<close>, a string, a number, ...), described by a string; or an object
  whose \<^verbatim>\<open>message\<close> property is a getter that throws, described by what the getter
  throws.
\<close>

datatype thrown = NullOrUndefined | OtherValue string | MessageGetterThrows string

type_synonym revenue_strategy = "item \<Rightarrow> product \<Rightarrow> thrown + rat"
type_synonym bonus_strategy = "nat \<Rightarrow> nat \<Rightarrow> seller_stat \<Rightarrow> thrown + rat"

text \<open>
  A property of \<^verbatim>\<open>options\<close>: falsy, truthy but not a function, or a function. A
  strategy is a function that returns a number or throws.
\<close>

datatype 'f option_value = Missing | NotFunction | Function 'f

record options =
  calculateRevenue :: "revenue_strategy option_value"
  calculateBonus :: "bonus_strategy option_value"

section \<open>The reference strategies\<close>

text \<open>\<^verbatim>\<open>Math.round(x * 100) / 100\<close>; \<^verbatim>\<open>Math.round\<close> rounds halves upwards.\<close>

definition round2 :: "rat \<Rightarrow> rat" where
  "round2 x = of_int \<lfloor>x * 100 + 1 / 2\<rfloor> / 100"

definition calculateSimpleRevenue :: revenue_strategy where
  "calculateSimpleRevenue purchase product =
     (let d = (case discount purchase of None \<Rightarrow> 0 | Some d \<Rightarrow> d);
          discountMultiplier = 1 - d / 100;
          revenue = sale_price purchase * quantity purchase * discountMultiplier
      in Inr (round2 revenue))"

definition calculateBonusByProfit :: bonus_strategy where
  "calculateBonusByProfit index total_sellers seller =
     (if index = 0 then Inr (15 / 100)
      else if index = 1 \<or> index = 2 then Inr (10 / 100)
      else if int index = int total_sellers - 1 then Inr 0
      else Inr (5 / 100))"

section \<open>\<^verbatim>\<open>analyzeSalesData\<close>\<close>

subsection \<open>Validation of the arguments\<close>

definition validate_data ::
  "data option \<Rightarrow> error + (seller list \<times> product list \<times> purchase_record list)" where
  "validate_data d =
     (case d of
        None \<Rightarrow> Inl InvalidInputData
      | Some dt \<Rightarrow>
          (case purchase_records dt of
             None \<Rightarrow> Inl InvalidInputData
           | Some recs \<Rightarrow>
               (case products dt of
                  None \<Rightarrow> Inl InvalidInputData
                | Some prods \<Rightarrow>
                    (case sellers dt of
                       None \<Rightarrow> Inl InvalidInputData
                     | Some sells \<Rightarrow>
                         if length recs = 0 \<or> length prods = 0 \<or> length sells = 0
                         then Inl InvalidInputData
                         else Inr (sells, prods, recs)))))"

fun falsy :: "'f option_value \<Rightarrow> bool" where
  "falsy Missing = True"
| "falsy NotFunction = False"
| "falsy (Function f) = False"

definition validate_options ::
  "options option \<Rightarrow> error + (revenue_strategy \<times> bonus_strategy)" where
  "validate_options opts =
     (case opts of
        None \<Rightarrow> Inl OptionsNotGiven
      | Some os \<Rightarrow>
          if falsy (calculateRevenue os) \<or> falsy (calculateBonus os)
          then Inl StrategiesMissing
          else (case (calculateRevenue os, calculateBonus os) of
                  (Function cr, Function cb) \<Rightarrow> Inr (cr, cb)
                | _ \<Rightarrow> Inl StrategiesNotFunctions))"

subsection \<open>Index construction\<close>

definition init_stat :: "seller \<Rightarrow> seller_stat" where
  "init_stat s =
     \<lparr>stat_id = s_id s, name = first_name s @ '' '' @ last_name s,
      revenue = 0, profit = 0, sales_count = 0, products_sold = []\<rparr>"

text \<open>
  \<^verbatim>\<open>Object.fromEntries(sellerStats.map(seller => [seller.id, seller]))\<close>: a later entry
  with the same key overwrites an earlier one. The value is the position of the
  accumulator in \<^verbatim>\<open>sellerStats\<close>. The map has no value for a key that was not stored;
  the object of the source has one when the key is a name of \<^verbatim>\<open>Object.prototype\<close>, so
  the two indexes are those of the source for the lookups of other keys only.
\<close>

definition sellerIndex :: "seller_stat list \<Rightarrow> string \<rightharpoonup> nat" where
  "sellerIndex stats =
     fold (\<lambda>(i, s) m. m(stat_id s \<mapsto> i)) (enumerate 0 stats) Map.empty"

definition productIndex :: "product list \<Rightarrow> string \<rightharpoonup> product" where
  "productIndex prods = fold (\<lambda>p m. m(product_sku p \<mapsto> p)) prods Map.empty"

subsection \<open>Aggregation\<close>

record agg_state =
  sellerStats :: "seller_stat list"
  validPurchasesCount :: nat
  skippedPurchases :: nat

text \<open>
  \<^verbatim>\<open>if (!sold[sku]) { sold[sku] = 0; }  sold[sku] += q;\<close> on an object whose keys
  are enumerated in insertion order: an absent key is appended, a present key keeps
  its place. This is what the source does for a SKU that is neither a name of
  \<^verbatim>\<open>Object.prototype\<close> (for which \<^verbatim>\<open>sold[sku]\<close> is not a number) nor an array index
  (which \<^verbatim>\<open>Object.entries\<close> lists before the other keys).
\<close>

definition add_sold :: "string \<Rightarrow> rat \<Rightarrow> (string \<times> rat) list \<Rightarrow> (string \<times> rat) list" where
  "add_sold sku q sold =
     (case map_of sold sku of
        None \<Rightarrow> AList.update sku (0 + q) (AList.update sku 0 sold)
      | Some v \<Rightarrow>
          if v = 0 then AList.update sku (0 + q) (AList.update sku 0 sold)
          else AList.update sku (v + q) sold)"

text \<open>
  \<^verbatim>\<open>forEach\<close> with a callback that may throw: the exception of a call ends the loop and
  is the exception of the loop.
\<close>

fun forEach :: "('a \<Rightarrow> 's \<Rightarrow> error + 's) \<Rightarrow> 'a list \<Rightarrow> 's \<Rightarrow> error + 's" where
  "forEach f [] st = Inr st"
| "forEach f (x # xs) st = (case f x st of Inl e \<Rightarrow> Inl e | Inr st' \<Rightarrow> forEach f xs st')"

text \<open>
  Evaluating \<^verbatim>\<open>error.message\<close> in the \<^verbatim>\<open>catch\<close> of the item loop, whose
  \<^verbatim>\<open>console.error(..., error.message, item)\<close> is its only statement: the exception it
  raises, if any.
\<close>

fun read_message :: "thrown \<Rightarrow> error option" where
  "read_message NullOrUndefined = Some TypeError"
| "read_message (OtherValue m) = None"
| "read_message (MessageGetterThrows x) = Some (Thrown x)"

text \<open>The body of \<^verbatim>\<open>record.items.forEach\<close>, for the seller at position \<open>k\<close>.\<close>

definition process_item ::
  "revenue_strategy \<Rightarrow> (string \<rightharpoonup> product) \<Rightarrow> nat \<Rightarrow> item \<Rightarrow> agg_state \<Rightarrow> error + agg_state" where
  "process_item calcRevenue prodIdx k it st =
     (case prodIdx (item_sku it) of
        None \<Rightarrow> Inr st
      | Some pd \<Rightarrow>
          (let cost = purchase_price pd * quantity it in
           case calcRevenue it pd of
             Inl e \<Rightarrow> (case read_message e of Some err \<Rightarrow> Inl err | None \<Rightarrow> Inr st)
           | Inr itemRevenue \<Rightarrow>
               (let itemProfit = itemRevenue - cost;
                    sel = sellerStats st ! k;
                    sel' = sel\<lparr>profit := profit sel + itemProfit,
                              products_sold :=
                                add_sold (item_sku it) (quantity it) (products_sold sel)\<rparr>
                in Inr (st\<lparr>sellerStats := (sellerStats st)[k := sel'],
                           validPurchasesCount := validPurchasesCount st + 1\<rparr>))))"

text \<open>The body of \<^verbatim>\<open>data.purchase_records.forEach\<close>.\<close>

definition process_record ::
  "revenue_strategy \<Rightarrow> (string \<rightharpoonup> nat) \<Rightarrow> (string \<rightharpoonup> product) \<Rightarrow>
     purchase_record \<Rightarrow> agg_state \<Rightarrow> error + agg_state" where
  "process_record calcRevenue selIdx prodIdx rec st =
     (case selIdx (seller_id rec) of
        None \<Rightarrow> Inr (st\<lparr>skippedPurchases := skippedPurchases st + 1\<rparr>)
      | Some k \<Rightarrow>
          (let sel = sellerStats st ! k;
               sel' = sel\<lparr>sales_count := sales_count sel + 1,
                         revenue := revenue sel + total_amount rec\<rparr>;
               st1 = st\<lparr>sellerStats := (sellerStats st)[k := sel']\<rparr>
           in forEach (process_item calcRevenue prodIdx k) (items rec) st1))"

text \<open>The statements of \<^verbatim>\<open>analyzeSalesData\<close> from the accumulators to the end of the loops.\<close>

definition aggregate ::
  "revenue_strategy \<Rightarrow> seller list \<Rightarrow> product list \<Rightarrow> purchase_record list \<Rightarrow>
     error + agg_state" where
  "aggregate calcRevenue sells prods recs =
     (let stats = map init_stat sells
      in forEach (process_record calcRevenue (sellerIndex stats) (productIndex prods)) recs
           \<lparr>sellerStats = stats, validPurchasesCount = 0, skippedPurchases = 0\<rparr>)"

subsection \<open>Ranking\<close>

text \<open>
  \<^verbatim>\<open>Object.entries(sold).map(...).sort((a, b) => b.quantity - a.quantity).slice(0, 10).map(item => item.sku)\<close>.
  \<^verbatim>\<open>Array.prototype.sort\<close> is stable, as \<^const>\<open>sort_key\<close> is.
\<close>

definition top_products_of :: "(string \<times> rat) list \<Rightarrow> string list" where
  "top_products_of sold = map fst (take 10 (sort_key (\<lambda>(sku, q). - q) sold))"

text \<open>
  The \<^verbatim>\<open>try\<close>/\<^verbatim>\<open>catch\<close> in the second \<^verbatim>\<open>forEach\<close>: the bonus and the top products of
  the seller at position \<open>index\<close>. This \<^verbatim>\<open>catch\<close> logs the thrown value itself and reads
  no property of it.
\<close>

definition assign_bonus ::
  "bonus_strategy \<Rightarrow> nat \<Rightarrow> nat \<Rightarrow> seller_stat \<Rightarrow> rat \<times> string list" where
  "assign_bonus calcBonus totalSellers index sel =
     (case calcBonus index totalSellers sel of
        Inr b \<Rightarrow> (b, top_products_of (products_sold sel))
      | Inl e \<Rightarrow> (0, []))"

definition make_entry :: "seller_stat \<Rightarrow> rat \<times> string list \<Rightarrow> report_entry" where
  "make_entry sel bt =
     \<lparr>entry_seller_id = stat_id sel, entry_name = name sel,
      entry_revenue = round2 (revenue sel), entry_profit = round2 (profit sel),
      entry_sales_count = sales_count sel, top_products = snd bt, bonus = fst bt\<rparr>"

definition build_report ::
  "revenue_strategy \<Rightarrow> bonus_strategy \<Rightarrow> seller list \<Rightarrow> product list \<Rightarrow>
     purchase_record list \<Rightarrow> error + report_entry list" where
  "build_report calcRevenue calcBonus sells prods recs =
     (case aggregate calcRevenue sells prods recs of
        Inl e \<Rightarrow> Inl e
      | Inr st \<Rightarrow>
          if validPurchasesCount st = 0 then Inl NoValidPurchases
          else
            let sellersArray = filter (\<lambda>s. sales_count s > 0) (sellerStats st) in
            if length sellersArray = 0 then Inl NoSalesData
            else
              let ranked = sort_key (\<lambda>s. - profit s) sellersArray;
                  totalSellers = length ranked
              in Inr (map (\<lambda>(index, sel).
                             make_entry sel (assign_bonus calcBonus totalSellers index sel))
                        (enumerate 0 ranked)))"

definition analyzeSalesData :: "data option \<Rightarrow> options option \<Rightarrow> error + report_entry list" where
  "analyzeSalesData d opts =
     (case validate_data d of
        Inl e \<Rightarrow> Inl e
      | Inr (sells, prods, recs) \<Rightarrow>
          (case validate_options opts of
             Inl e \<Rightarrow> Inl e
           | Inr (calcRevenue, calcBonus) \<Rightarrow>
               build_report calcRevenue calcBonus sells prods recs))"

section \<open>Notions used to state the properties\<close>

text \<open>
  The definitions of this section are not functions of the source; they name what the
  statements below talk about.
\<close>

subsection \<open>Keys on which a plain object is not a map\<close>

text \<open>
  The names every plain object inherits from \<^verbatim>\<open>Object.prototype\<close>: a lookup of one of them
  in an object that has no own property of that name finds the inherited value.
\<close>

definition prototype_names :: "string list" where
  "prototype_names =
     [''__defineGetter__'', ''__defineSetter__'', ''__lookupGetter__'', ''__lookupSetter__'',
      ''__proto__'', ''constructor'', ''hasOwnProperty'', ''isPrototypeOf'',
      ''propertyIsEnumerable'', ''toLocaleString'', ''toString'', ''valueOf'']"

definition plain_name :: "string \<Rightarrow> bool" where
  "plain_name s = (s \<notin> set prototype_names)"

text \<open>
  A canonical numeric string: digits only, no leading zero. Every array index is one
  (the bound \<open>2^32 - 2\<close> on array indexes is ignored here, so the predicate holds of
  some keys that are enumerated in insertion order all the same).
\<close>

definition array_index :: "string \<Rightarrow> bool" where
  "array_index s =
     (s \<noteq> [] \<and> list_all (\<lambda>c. c \<in> set ''0123456789'') s \<and> (s = ''0'' \<or> hd s \<noteq> CHR ''0''))"

definition ordinary_sku :: "string \<Rightarrow> bool" where
  "ordinary_sku s = (plain_name s \<and> \<not> array_index s)"

text \<open>
  The receipts on which the lookups of the model are those of the source
  (\<open>plain_input\<close>), and those on which the order of \<^verbatim>\<open>products_sold\<close> is as well
  (\<open>ordinary_input\<close>).
\<close>

definition plain_input :: "purchase_record list \<Rightarrow> bool" where
  "plain_input recs =
     list_all (\<lambda>r. plain_name (seller_id r)
                  \<and> list_all (\<lambda>it. plain_name (item_sku it)) (items r)) recs"

definition ordinary_input :: "purchase_record list \<Rightarrow> bool" where
  "ordinary_input recs =
     list_all (\<lambda>r. plain_name (seller_id r)
                  \<and> list_all (\<lambda>it. ordinary_sku (item_sku it)) (items r)) recs"

subsection \<open>Exceptions of the loops\<close>

text \<open>
  The exception with which the body of the item loop ends for an item, if it does: the
  SKU is indexed, the revenue strategy throws, and reading the \<^verbatim>\<open>message\<close> of what it
  threw raises.
\<close>

definition item_error :: "revenue_strategy \<Rightarrow> (string \<rightharpoonup> product) \<Rightarrow> item \<Rightarrow> error option" where
  "item_error calcRevenue prodIdx it =
     (case prodIdx (item_sku it) of
        None \<Rightarrow> None
      | Some pd \<Rightarrow> (case calcRevenue it pd of Inl e \<Rightarrow> read_message e | Inr itemRevenue \<Rightarrow> None))"

fun first_error :: "error option list \<Rightarrow> error option" where
  "first_error [] = None"
| "first_error (None # es) = first_error es"
| "first_error (Some e # es) = Some e"

definition record_error ::
  "revenue_strategy \<Rightarrow> (string \<rightharpoonup> nat) \<Rightarrow> (string \<rightharpoonup> product) \<Rightarrow> purchase_record \<Rightarrow>
     error option" where
  "record_error calcRevenue selIdx prodIdx r =
     (case selIdx (seller_id r) of
        None \<Rightarrow> None
      | Some k \<Rightarrow> first_error (map (item_error calcRevenue prodIdx) (items r)))"

definition run_error ::
  "revenue_strategy \<Rightarrow> seller list \<Rightarrow> product list \<Rightarrow> purchase_record list \<Rightarrow> error option" where
  "run_error calcRevenue sells prods recs =
     first_error (map (record_error calcRevenue (sellerIndex (map init_stat sells))
                         (productIndex prods)) recs)"

text \<open>
  No item of the receipts makes the \<^verbatim>\<open>catch\<close> of the item loop raise: whatever the
  revenue strategy throws for an item with an indexed SKU has a readable \<^verbatim>\<open>message\<close>.
\<close>

definition handler_safe :: "revenue_strategy \<Rightarrow> product list \<Rightarrow> purchase_record list \<Rightarrow> bool" where
  "handler_safe calcRevenue prods recs =
     list_all (\<lambda>r. list_all (\<lambda>it. item_error calcRevenue (productIndex prods) it = None) (items r))
       recs"

subsection \<open>The loops when no exception leaves them\<close>

text \<open>
  The state after the body of the item loop, of the receipt loop, and after both loops,
  when no exception leaves them; the lemmas \<open>process_item_eq\<close>, \<open>process_record_eq\<close>
  and \<open>aggregate_eq\<close> relate them to the functions of the source.
\<close>

definition item_step ::
  "revenue_strategy \<Rightarrow> (string \<rightharpoonup> product) \<Rightarrow> nat \<Rightarrow> item \<Rightarrow> agg_state \<Rightarrow> agg_state" where
  "item_step calcRevenue prodIdx k it st =
     (case prodIdx (item_sku it) of
        None \<Rightarrow> st
      | Some pd \<Rightarrow>
          (case calcRevenue it pd of
             Inl e \<Rightarrow> st
           | Inr itemRevenue \<Rightarrow>
               st\<lparr>sellerStats := (sellerStats st)[k := (sellerStats st ! k)
                     \<lparr>profit := profit (sellerStats st ! k)
                                 + (itemRevenue - purchase_price pd * quantity it),
                      products_sold :=
                        add_sold (item_sku it) (quantity it)
                          (products_sold (sellerStats st ! k))\<rparr>],
                  validPurchasesCount := validPurchasesCount st + 1\<rparr>))"

definition record_step ::
  "revenue_strategy \<Rightarrow> (string \<rightharpoonup> nat) \<Rightarrow> (string \<rightharpoonup> product) \<Rightarrow>
     purchase_record \<Rightarrow> agg_state \<Rightarrow> agg_state" where
  "record_step calcRevenue selIdx prodIdx r st =
     (case selIdx (seller_id r) of
        None \<Rightarrow> st\<lparr>skippedPurchases := skippedPurchases st + 1\<rparr>
      | Some k \<Rightarrow>
          fold (item_step calcRevenue prodIdx k) (items r)
            (st\<lparr>sellerStats := (sellerStats st)[k := (sellerStats st ! k)
                  \<lparr>sales_count := sales_count (sellerStats st ! k) + 1,
                   revenue := revenue (sellerStats st ! k) + total_amount r\<rparr>]\<rparr>))"

definition final_state ::
  "revenue_strategy \<Rightarrow> seller list \<Rightarrow> product list \<Rightarrow> purchase_record list \<Rightarrow> agg_state" where
  "final_state calcRevenue sells prods recs =
     fold (record_step calcRevenue (sellerIndex (map init_stat sells)) (productIndex prods)) recs
       \<lparr>sellerStats = map init_stat sells, validPurchasesCount = 0, skippedPurchases = 0\<rparr>"

subsection \<open>Valid items and what a receipt adds\<close>

text \<open>
  An item is \<^emph>\<open>valid\<close> when its SKU is indexed and the revenue strategy returns for it:
  these are the items for which the \<^verbatim>\<open>try\<close> block of \<^verbatim>\<open>record.items.forEach\<close> runs to
  its end.
\<close>

definition valid_item :: "revenue_strategy \<Rightarrow> (string \<rightharpoonup> product) \<Rightarrow> item \<Rightarrow> bool" where
  "valid_item calcRevenue prodIdx it =
     (case prodIdx (item_sku it) of
        None \<Rightarrow> False
      | Some pd \<Rightarrow> (case calcRevenue it pd of Inl e \<Rightarrow> False | Inr itemRevenue \<Rightarrow> True))"

definition item_profit :: "revenue_strategy \<Rightarrow> (string \<rightharpoonup> product) \<Rightarrow> item \<Rightarrow> rat" where
  "item_profit calcRevenue prodIdx it =
     (case prodIdx (item_sku it) of
        None \<Rightarrow> 0
      | Some pd \<Rightarrow>
          (case calcRevenue it pd of
             Inl e \<Rightarrow> 0
           | Inr itemRevenue \<Rightarrow> itemRevenue - purchase_price pd * quantity it))"

text \<open>
  The quantity recorded for a SKU in \<^verbatim>\<open>products_sold\<close>, 0 for an absent key.
\<close>

definition sold_quantity :: "(string \<times> rat) list \<Rightarrow> string \<Rightarrow> rat" where
  "sold_quantity sold sku = (case map_of sold sku of None \<Rightarrow> 0 | Some q \<Rightarrow> q)"

definition add_items :: "item list \<Rightarrow> (string \<times> rat) list \<Rightarrow> (string \<times> rat) list" where
  "add_items its sold = fold (\<lambda>it. add_sold (item_sku it) (quantity it)) its sold"

text \<open>
  What one receipt does to the accumulator of its seller.
\<close>

definition record_effect ::
  "revenue_strategy \<Rightarrow> (string \<rightharpoonup> product) \<Rightarrow> purchase_record \<Rightarrow> seller_stat \<Rightarrow> seller_stat" where
  "record_effect cr pidx r sel =
     sel\<lparr>sales_count := sales_count sel + 1,
         revenue := revenue sel + total_amount r,
         profit := profit sel + sum_list (map (item_profit cr pidx) (items r)),
         products_sold :=
           add_items (filter (valid_item cr pidx) (items r)) (products_sold sel)\<rparr>"

definition valid_items_of ::
  "revenue_strategy \<Rightarrow> (string \<rightharpoonup> nat) \<Rightarrow> (string \<rightharpoonup> product) \<Rightarrow> purchase_record \<Rightarrow> nat" where
  "valid_items_of cr sidx pidx r =
     (case sidx (seller_id r) of
        None \<Rightarrow> 0
      | Some k \<Rightarrow> length (filter (valid_item cr pidx) (items r)))"

subsection \<open>The ranked sellers and the specification's top products\<close>

text \<open>
  \<^verbatim>\<open>sellersArray\<close> after \<^verbatim>\<open>sellerStats.filter(...)\<close> and
  \<^verbatim>\<open>sort((a, b) => b.profit - a.profit)\<close>.
\<close>

definition rank_sellers :: "seller_stat list \<Rightarrow> seller_stat list" where
  "rank_sellers stats = sort_key (\<lambda>s. - profit s) (filter (\<lambda>s. sales_count s > 0) stats)"



section \<open>Example inputs\<close>

text \<open>
  One seller, one product bought at 10, one receipt with one line item (sale price 20,
  quantity 2, discount 0); the receipt total is a parameter.
\<close>

definition ex_seller :: seller where
  "ex_seller = \<lparr>s_id = ''seller_1'', first_name = ''Ann'', last_name = ''Lee''\<rparr>"

definition ex_product :: product where
  "ex_product = \<lparr>product_sku = ''SKU_1'', purchase_price = 10\<rparr>"

definition ex_item :: item where
  "ex_item = \<lparr>item_sku = ''SKU_1'', quantity = 2, sale_price = 20, discount = Some 0\<rparr>"

definition ex_record :: "rat \<Rightarrow> purchase_record" where
  "ex_record t = \<lparr>receipt_id = ''receipt_1'', seller_id = ''seller_1'', total_amount = t,
                  items = [ex_item]\<rparr>"

definition ex_data :: "rat \<Rightarrow> data" where
  "ex_data t = \<lparr>customers = Some [\<lparr>customer_id = ''customer_1''\<rparr>], products = Some [ex_product],
                sellers = Some [ex_seller], purchase_records = Some [ex_record t]\<rparr>"

definition default_options :: options where
  "default_options = \<lparr>calculateRevenue = Function calculateSimpleRevenue,
                       calculateBonus = Function calculateBonusByProfit\<rparr>"


definition ex_state :: agg_state where
  "ex_state = \<lparr>sellerStats = [init_stat ex_seller], validPurchasesCount = 0, skippedPurchases = 0\<rparr>"

text \<open>
  A shop with three sellers and two products. Receipt 3 names an unknown seller, the only
  item of receipt 4 an unknown SKU; seller 3 has no receipt; the two items of receipt 1
  have the same quantity.
\<close>

definition shop_sellers :: "seller list" where
  "shop_sellers = [\<lparr>s_id = ''seller_1'', first_name = ''Ann'', last_name = ''Lee''\<rparr>,
                   \<lparr>s_id = ''seller_2'', first_name = ''Bob'', last_name = ''Ray''\<rparr>,
                   \<lparr>s_id = ''seller_3'', first_name = ''Cy'', last_name = ''Poe''\<rparr>]"

definition shop_products :: "product list" where
  "shop_products = [\<lparr>product_sku = ''SKU_1'', purchase_price = 10\<rparr>,
                    \<lparr>product_sku = ''SKU_2'', purchase_price = 5\<rparr>]"

definition shop_receipt_1 :: purchase_record where
  "shop_receipt_1 =
     \<lparr>receipt_id = ''receipt_1'', seller_id = ''seller_1'', total_amount = 28,
      items = [\<lparr>item_sku = ''SKU_2'', quantity = 1, sale_price = 8, discount = None\<rparr>,
               \<lparr>item_sku = ''SKU_1'', quantity = 1, sale_price = 20, discount = Some 0\<rparr>]\<rparr>"

definition shop_receipt_2 :: purchase_record where
  "shop_receipt_2 =
     \<lparr>receipt_id = ''receipt_2'', seller_id = ''seller_2'', total_amount = 36,
      items = [\<lparr>item_sku = ''SKU_1'', quantity = 2, sale_price = 20, discount = Some 10\<rparr>]\<rparr>"

definition shop_receipt_3 :: purchase_record where
  "shop_receipt_3 =
     \<lparr>receipt_id = ''receipt_3'', seller_id = ''seller_9'', total_amount = 8,
      items = [\<lparr>item_sku = ''SKU_2'', quantity = 1, sale_price = 8, discount = None\<rparr>]\<rparr>"

definition shop_receipt_4 :: purchase_record where
  "shop_receipt_4 =
     \<lparr>receipt_id = ''receipt_4'', seller_id = ''seller_1'', total_amount = 30,
      items = [\<lparr>item_sku = ''SKU_9'', quantity = 1, sale_price = 30, discount = None\<rparr>]\<rparr>"

definition shop_records :: "purchase_record list" where
  "shop_records = [shop_receipt_1, shop_receipt_2, shop_receipt_3, shop_receipt_4]"

definition shop_data :: data where
  "shop_data = \<lparr>customers = Some [\<lparr>customer_id = ''customer_1''\<rparr>],
                 products = Some shop_products, sellers = Some shop_sellers,
                 purchase_records = Some shop_records\<rparr>"

definition shop_report :: "report_entry list" where
  "shop_report =
     [\<lparr>entry_seller_id = ''seller_2'', entry_name = ''Bob Ray'',
       entry_revenue = 36, entry_profit = 16, entry_sales_count = 1,
       top_products = [''SKU_1''], bonus = 3 / 20\<rparr>,
      \<lparr>entry_seller_id = ''seller_1'', entry_name = ''Ann Lee'',
       entry_revenue = 58, entry_profit = 13, entry_sales_count = 2,
       top_products = [''SKU_2'', ''SKU_1''], bonus = 1 / 10\<rparr>]"

text \<open>
  Strategies that throw: the revenue strategy for \<^verbatim>\<open>SKU_2\<close> (an \<^verbatim>\<open>Error\<close>, or \<^verbatim>\<open>null\<close>), the
  bonus strategy at index 1.
\<close>

definition failing_revenue :: revenue_strategy where
  "failing_revenue purchase product =
     (if item_sku purchase = ''SKU_2'' then Inl (OtherValue ''no price list'')
      else calculateSimpleRevenue purchase product)"

definition failing_bonus :: bonus_strategy where
  "failing_bonus index total_sellers seller =
     (if index = 1 then Inl (OtherValue ''no bonus table'')
      else calculateBonusByProfit index total_sellers seller)"

definition null_revenue :: revenue_strategy where
  "null_revenue purchase product =
     (if item_sku purchase = ''SKU_2'' then Inl NullOrUndefined
      else calculateSimpleRevenue purchase product)"

definition failing_options :: options where
  "failing_options = \<lparr>calculateRevenue = Function failing_revenue,
                       calculateBonus = Function failing_bonus\<rparr>"

definition failing_report :: "report_entry list" where
  "failing_report =
     [\<lparr>entry_seller_id = ''seller_2'', entry_name = ''Bob Ray'',
       entry_revenue = 36, entry_profit = 16, entry_sales_count = 1,
       top_products = [''SKU_1''], bonus = 3 / 20\<rparr>,
      \<lparr>entry_seller_id = ''seller_1'', entry_name = ''Ann Lee'',
       entry_revenue = 58, entry_profit = 10, entry_sales_count = 2,
       top_products = [], bonus = 0\<rparr>]"

section \<open>Rounding and the indexes\<close>

lemma floor_divide_numeral_rat:
  "\<lfloor>(numeral a / numeral b :: rat)\<rfloor> = numeral a div numeral b"
  using floor_divide_of_int_eq[of "numeral a" "numeral b", where ?'a = rat] by simp

lemma round2_mono: "x \<le> y \<Longrightarrow> round2 x \<le> round2 y"
  unfolding round2_def
  by (intro divide_right_mono of_int_le_iff[THEN iffD2] floor_mono) simp_all

lemma sellerIndex_snoc:
  "sellerIndex (stats @ [s]) = (sellerIndex stats)(stat_id s \<mapsto> length stats)"
  by (simp add: sellerIndex_def enumerate_append_eq)

lemma sellerIndex_Some:
  "sellerIndex stats sid = Some k \<Longrightarrow>
     k < length stats \<and> stat_id (stats ! k) = sid"
proof (induction stats arbitrary: k rule: rev_induct)
  case Nil
  then show ?case by (simp add: sellerIndex_def)
next
  case (snoc s stats)
  then show ?case
    by (auto simp: sellerIndex_snoc nth_append less_Suc_eq split: if_splits)
qed

lemma sellerIndex_None:
  "sellerIndex stats sid = None \<longleftrightarrow> sid \<notin> stat_id ` set stats"
proof (induction stats rule: rev_induct)
  case Nil
  then show ?case by (simp add: sellerIndex_def)
next
  case (snoc s stats)
  then show ?case by (auto simp: sellerIndex_snoc)
qed

lemma productIndex_snoc:
  "productIndex (ps @ [p]) = (productIndex ps)(product_sku p \<mapsto> p)"
  by (simp add: productIndex_def)

lemma productIndex_Some:
  "productIndex ps sku = Some p \<Longrightarrow> p \<in> set ps \<and> product_sku p = sku"
proof (induction ps rule: rev_induct)
  case Nil
  then show ?case by (simp add: productIndex_def)
next
  case (snoc q ps)
  then show ?case by (auto simp: productIndex_snoc split: if_splits)
qed

lemma productIndex_None:
  "productIndex ps sku = None \<longleftrightarrow> sku \<notin> product_sku ` set ps"
proof (induction ps rule: rev_induct)
  case Nil
  then show ?case by (simp add: productIndex_def)
next
  case (snoc q ps)
  then show ?case by (auto simp: productIndex_snoc)
qed

lemma sellerIndex_init_bound:
  "sellerIndex (map init_stat sells) sid = Some k \<Longrightarrow> k < length sells \<and> s_id (sells ! k) = sid"
  using sellerIndex_Some[of "map init_stat sells" sid k] by (auto simp: init_stat_def)

lemma sellerIndex_init_None:
  "sellerIndex (map init_stat sells) sid = None \<longleftrightarrow> sid \<notin> s_id ` set sells"
  by (simp add: sellerIndex_None image_image init_stat_def)

section \<open>The aggregation loop\<close>

lemma map_of_add_sold:
  "map_of (add_sold sku q sold) =
     (map_of sold)(sku \<mapsto> (case map_of sold sku of None \<Rightarrow> 0 | Some v \<Rightarrow> v) + q)"
  by (auto simp: add_sold_def update_conv' split: option.splits)


lemma sold_quantity_add_sold:
  "sold_quantity (add_sold sku q sold) sku' =
     (if sku' = sku then sold_quantity sold sku + q else sold_quantity sold sku')"
  by (simp add: sold_quantity_def map_of_add_sold split: option.splits)

lemma sold_quantity_add_items:
  "sold_quantity (add_items its sold) sku =
     sold_quantity sold sku + sum_list (map quantity (filter (\<lambda>it. item_sku it = sku) its))"
  unfolding add_items_def
  by (induction its arbitrary: sold) (simp_all add: sold_quantity_add_sold)


lemma item_step_unknown:
  "pidx (item_sku it) = None \<Longrightarrow> item_step cr pidx k it st = st"
  by (simp add: item_step_def)

lemma item_step_invalid:
  "\<not> valid_item cr pidx it \<Longrightarrow> item_step cr pidx k it st = st"
  by (auto simp: valid_item_def item_step_def split: option.splits sum.splits)

lemma item_step_valid:
  "valid_item cr pidx it \<Longrightarrow>
   item_step cr pidx k it st =
     st\<lparr>sellerStats := (sellerStats st)[k := (sellerStats st ! k)
            \<lparr>profit := profit (sellerStats st ! k) + item_profit cr pidx it,
             products_sold := add_sold (item_sku it) (quantity it)
                                (products_sold (sellerStats st ! k))\<rparr>],
        validPurchasesCount := validPurchasesCount st + 1\<rparr>"
  by (auto simp: valid_item_def item_profit_def item_step_def Let_def
           split: option.splits sum.splits)

lemma fold_item_step:
  "k < length (sellerStats st) \<Longrightarrow>
   fold (item_step cr pidx k) its st =
     st\<lparr>sellerStats := (sellerStats st)[k := (sellerStats st ! k)
            \<lparr>profit := profit (sellerStats st ! k) + sum_list (map (item_profit cr pidx) its),
             products_sold :=
               add_items (filter (valid_item cr pidx) its) (products_sold (sellerStats st ! k))\<rparr>],
        validPurchasesCount :=
          validPurchasesCount st + length (filter (valid_item cr pidx) its)\<rparr>"
proof (induction its arbitrary: st)
  case Nil
  then show ?case by (simp add: add_items_def)
next
  case (Cons it its)
  show ?case
  proof (cases "valid_item cr pidx it")
    case True
    let ?st1 = "item_step cr pidx k it st"
    have len: "k < length (sellerStats ?st1)"
      using Cons.prems by (simp add: item_step_valid[OF True])
    show ?thesis
      using Cons.prems True
      by (simp add: Cons.IH[OF len]) (simp add: item_step_valid[OF True] add_items_def add.assoc)
  next
    case False
    have ip: "item_profit cr pidx it = 0"
      using False by (auto simp: valid_item_def item_profit_def split: option.splits sum.splits)
    show ?thesis
      using Cons.prems False
      by (simp add: item_step_invalid[OF False] Cons.IH ip)
  qed
qed

lemma record_step_unknown:
  "sidx (seller_id r) = None \<Longrightarrow>
   record_step cr sidx pidx r st = st\<lparr>skippedPurchases := skippedPurchases st + 1\<rparr>"
  by (simp add: record_step_def)

lemma record_step_known:
  "sidx (seller_id r) = Some k \<Longrightarrow> k < length (sellerStats st) \<Longrightarrow>
   record_step cr sidx pidx r st =
     st\<lparr>sellerStats := (sellerStats st)[k := (sellerStats st ! k)
            \<lparr>sales_count := sales_count (sellerStats st ! k) + 1,
             revenue := revenue (sellerStats st ! k) + total_amount r,
             profit := profit (sellerStats st ! k)
                         + sum_list (map (item_profit cr pidx) (items r)),
             products_sold :=
               add_items (filter (valid_item cr pidx) (items r))
                 (products_sold (sellerStats st ! k))\<rparr>],
        validPurchasesCount :=
          validPurchasesCount st + length (filter (valid_item cr pidx) (items r))\<rparr>"
  by (simp add: record_step_def Let_def fold_item_step)

lemma record_step_known':
  "sidx (seller_id r) = Some k \<Longrightarrow> k < length (sellerStats st) \<Longrightarrow>
   record_step cr sidx pidx r st =
     st\<lparr>sellerStats := (sellerStats st)[k := record_effect cr pidx r (sellerStats st ! k)],
        validPurchasesCount :=
          validPurchasesCount st + length (filter (valid_item cr pidx) (items r))\<rparr>"
  by (simp add: record_step_known record_effect_def)

text \<open>
  The loop over the receipts, seen from one seller: the accumulator at position \<open>j\<close> is
  the fold of the receipts indexed to \<open>j\<close>, in their order.
\<close>

lemma fold_record_step:
  assumes "\<forall>sid k. sidx sid = Some k \<longrightarrow> k < length (sellerStats st)"
  shows "length (sellerStats (fold (record_step cr sidx pidx) recs st)) = length (sellerStats st)
       \<and> (\<forall>j < length (sellerStats st).
            sellerStats (fold (record_step cr sidx pidx) recs st) ! j =
              fold (record_effect cr pidx) (filter (\<lambda>r. sidx (seller_id r) = Some j) recs)
                (sellerStats st ! j))
       \<and> validPurchasesCount (fold (record_step cr sidx pidx) recs st) =
           validPurchasesCount st + sum_list (map (valid_items_of cr sidx pidx) recs)"
  using assms
proof (induction recs arbitrary: st)
  case Nil
  then show ?case by simp
next
  case (Cons r recs)
  show ?case
  proof (cases "sidx (seller_id r)")
    case None
    let ?st1 = "st\<lparr>skippedPurchases := skippedPurchases st + 1\<rparr>"
    have b: "\<forall>sid k. sidx sid = Some k \<longrightarrow> k < length (sellerStats ?st1)"
      using Cons.prems by simp
    show ?thesis
      using Cons.IH[of ?st1, OF b] None
      by (simp add: record_step_unknown valid_items_of_def)
  next
    case (Some k)
    have k: "k < length (sellerStats st)" using Cons.prems Some by blast
    let ?st1 = "record_step cr sidx pidx r st"
    have st1: "?st1 = st\<lparr>sellerStats := (sellerStats st)[k := record_effect cr pidx r (sellerStats st ! k)],
        validPurchasesCount :=
          validPurchasesCount st + length (filter (valid_item cr pidx) (items r))\<rparr>"
      using Some k by (rule record_step_known')
    have b: "\<forall>sid k. sidx sid = Some k \<longrightarrow> k < length (sellerStats ?st1)"
      using Cons.prems by (simp add: st1)
    have len1: "length (sellerStats ?st1) = length (sellerStats st)" by (simp add: st1)
    have nth1: "\<And>j. j < length (sellerStats st) \<Longrightarrow> sellerStats ?st1 ! j =
        (if j = k then record_effect cr pidx r (sellerStats st ! k) else sellerStats st ! j)"
      by (simp add: st1 nth_list_update)
    have vp1: "validPurchasesCount ?st1 = validPurchasesCount st + valid_items_of cr sidx pidx r"
      by (simp add: st1 valid_items_of_def Some)
    from Cons.IH[of ?st1, OF b]
    show ?thesis
      using Some by (auto simp: len1 nth1 vp1 simp del: )
  qed
qed

lemma fold_record_effect_id [simp]:
  "stat_id (fold (record_effect cr pidx) rs sel) = stat_id sel"
  "name (fold (record_effect cr pidx) rs sel) = name sel"
  by (induction rs arbitrary: sel) (simp_all add: record_effect_def)

lemma fold_record_effect_sales_count:
  "sales_count (fold (record_effect cr pidx) rs sel) = sales_count sel + length rs"
  by (induction rs arbitrary: sel) (simp_all add: record_effect_def)

lemma fold_record_effect_revenue:
  "revenue (fold (record_effect cr pidx) rs sel) = revenue sel + sum_list (map total_amount rs)"
  by (induction rs arbitrary: sel) (simp_all add: record_effect_def)

lemma fold_record_effect_profit:
  "profit (fold (record_effect cr pidx) rs sel) =
     profit sel + sum_list (map (\<lambda>r. sum_list (map (item_profit cr pidx) (items r))) rs)"
  by (induction rs arbitrary: sel) (simp_all add: record_effect_def)


lemma final_state_facts:
  "length (sellerStats (final_state cr sells prods recs)) = length sells"
  "j < length sells \<Longrightarrow> sellerStats (final_state cr sells prods recs) ! j =
      fold (record_effect cr (productIndex prods))
        (filter (\<lambda>r. sellerIndex (map init_stat sells) (seller_id r) = Some j) recs)
        (init_stat (sells ! j))"
  "validPurchasesCount (final_state cr sells prods recs) =
     sum_list (map (valid_items_of cr (sellerIndex (map init_stat sells)) (productIndex prods)) recs)"
proof -
  let ?st0 = "\<lparr>sellerStats = map init_stat sells, validPurchasesCount = 0, skippedPurchases = 0\<rparr>"
  have b: "\<forall>sid k. sellerIndex (map init_stat sells) sid = Some k \<longrightarrow> k < length (sellerStats ?st0)"
    using sellerIndex_init_bound by simp
  note f = fold_record_step[of "sellerIndex (map init_stat sells)" ?st0 cr "productIndex prods" recs, OF b]
  show "length (sellerStats (final_state cr sells prods recs)) = length sells"
    using f by (simp add: final_state_def Let_def)
  show "j < length sells \<Longrightarrow> sellerStats (final_state cr sells prods recs) ! j =
      fold (record_effect cr (productIndex prods))
        (filter (\<lambda>r. sellerIndex (map init_stat sells) (seller_id r) = Some j) recs)
        (init_stat (sells ! j))"
    using f by (simp add: final_state_def Let_def)
  show "validPurchasesCount (final_state cr sells prods recs) =
     sum_list (map (valid_items_of cr (sellerIndex (map init_stat sells)) (productIndex prods)) recs)"
    using f by (simp add: final_state_def Let_def)
qed

lemma valid_items_of_pos_iff:
  "0 < valid_items_of cr (sellerIndex (map init_stat sells)) pidx r \<longleftrightarrow>
     seller_id r \<in> s_id ` set sells \<and> (\<exists>it \<in> set (items r). valid_item cr pidx it)"
proof (cases "sellerIndex (map init_stat sells) (seller_id r)")
  case None
  then show ?thesis
    using sellerIndex_init_None[of sells "seller_id r"] by (simp add: valid_items_of_def)
next
  case (Some k)
  then have "seller_id r \<in> s_id ` set sells"
    using sellerIndex_init_None[of sells "seller_id r"] by auto
  then show ?thesis
    using Some by (auto simp: valid_items_of_def filter_empty_conv)
qed

lemma validPurchasesCount_pos_iff:
  "0 < validPurchasesCount (final_state cr sells prods recs) \<longleftrightarrow>
     (\<exists>r \<in> set recs. seller_id r \<in> s_id ` set sells
         \<and> (\<exists>it \<in> set (items r). valid_item cr (productIndex prods) it))"
proof -
  have "0 < sum_list (map f recs) \<longleftrightarrow> (\<exists>r \<in> set recs. 0 < f r)" for f :: "purchase_record \<Rightarrow> nat"
    by (induction recs) auto
  then show ?thesis
    by (simp add: final_state_facts(3) valid_items_of_pos_iff)
qed

lemma sales_count_final_state:
  "j < length sells \<Longrightarrow>
   sales_count (sellerStats (final_state cr sells prods recs) ! j) =
     length (filter (\<lambda>r. sellerIndex (map init_stat sells) (seller_id r) = Some j) recs)"
  by (simp add: final_state_facts(2) fold_record_effect_sales_count init_stat_def)

lemma stat_id_final_state:
  "j < length sells \<Longrightarrow> stat_id (sellerStats (final_state cr sells prods recs) ! j) = s_id (sells ! j)"
  by (simp add: final_state_facts(2) init_stat_def)

lemma sellers_with_sales_nonempty:
  assumes "0 < validPurchasesCount (final_state cr sells prods recs)"
  shows "filter (\<lambda>s. sales_count s > 0) (sellerStats (final_state cr sells prods recs)) \<noteq> []"
proof -
  from assms obtain r where r: "r \<in> set recs" "seller_id r \<in> s_id ` set sells"
    by (auto simp: validPurchasesCount_pos_iff)
  then obtain k where k: "sellerIndex (map init_stat sells) (seller_id r) = Some k"
    using sellerIndex_init_None[of sells "seller_id r"] by auto
  then have klt: "k < length sells" using sellerIndex_init_bound by blast
  have "r \<in> set (filter (\<lambda>r. sellerIndex (map init_stat sells) (seller_id r) = Some k) recs)"
    using r k by simp
  then have "0 < length (filter (\<lambda>r. sellerIndex (map init_stat sells) (seller_id r) = Some k) recs)"
    by (rule length_pos_if_in_set)
  then have "0 < sales_count (sellerStats (final_state cr sells prods recs) ! k)"
    using klt by (simp add: sales_count_final_state)
  moreover have "sellerStats (final_state cr sells prods recs) ! k
                   \<in> set (sellerStats (final_state cr sells prods recs))"
    using klt by (simp add: final_state_facts(1))
  ultimately show ?thesis by (auto simp: filter_empty_conv)
qed

section \<open>The loops of the source and their exceptions\<close>

lemma first_error_None_iff: "first_error es = None \<longleftrightarrow> (\<forall>e \<in> set es. e = None)"
  by (induction es rule: first_error.induct) auto

lemma first_error_Some: "first_error es = Some e \<Longrightarrow> Some e \<in> set es"
  by (induction es rule: first_error.induct) auto


lemma forEach_eq:
  assumes "\<And>x st. f x st = (case err x of Some e \<Rightarrow> Inl e | None \<Rightarrow> Inr (g x st))"
  shows "forEach f xs st =
           (case first_error (map err xs) of Some e \<Rightarrow> Inl e | None \<Rightarrow> Inr (fold g xs st))"
proof (induction xs arbitrary: st)
  case Nil
  show ?case by simp
next
  case (Cons x xs)
  have fx: "f x st = (case err x of Some e \<Rightarrow> Inl e | None \<Rightarrow> Inr (g x st))"
    by (rule assms)
  show ?case
  proof (cases "err x")
    case None
    then have "f x st = Inr (g x st)" using fx by simp
    then show ?thesis using None Cons.IH[of "g x st"] by (simp split: option.splits)
  next
    case (Some e)
    then have "f x st = Inl e" using fx by simp
    then show ?thesis using Some by simp
  qed
qed

lemma process_item_eq:
  "process_item cr pidx k it st =
     (case item_error cr pidx it of Some e \<Rightarrow> Inl e | None \<Rightarrow> Inr (item_step cr pidx k it st))"
  by (simp add: process_item_def item_error_def item_step_def Let_def
           split: option.splits sum.splits)

lemma process_items_eq:
  "forEach (process_item cr pidx k) its st =
     (case first_error (map (item_error cr pidx) its) of
        Some e \<Rightarrow> Inl e
      | None \<Rightarrow> Inr (fold (item_step cr pidx k) its st))"
  by (rule forEach_eq) (rule process_item_eq)

lemma process_record_eq:
  "process_record cr sidx pidx r st =
     (case record_error cr sidx pidx r of
        Some e \<Rightarrow> Inl e
      | None \<Rightarrow> Inr (record_step cr sidx pidx r st))"
  by (simp add: process_record_def record_error_def record_step_def Let_def process_items_eq
           split: option.splits)

lemma aggregate_eq:
  "aggregate cr sells prods recs =
     (case run_error cr sells prods recs of
        Some e \<Rightarrow> Inl e
      | None \<Rightarrow> Inr (final_state cr sells prods recs))"
  unfolding aggregate_def run_error_def final_state_def Let_def
  by (rule forEach_eq) (rule process_record_eq)

lemma aggregate_Inr:
  "aggregate cr sells prods recs = Inr st \<Longrightarrow>
     st = final_state cr sells prods recs \<and> run_error cr sells prods recs = None"
  by (simp add: aggregate_eq split: option.splits)

lemma item_error_cases:
  "item_error cr pidx it = Some e \<Longrightarrow> e = TypeError \<or> (\<exists>x. e = Thrown x)"
  by (auto simp: item_error_def split: option.splits sum.splits elim: read_message.elims)

lemma run_error_cases:
  assumes "run_error cr sells prods recs = Some e"
  shows "e = TypeError \<or> (\<exists>x. e = Thrown x)"
proof -
  from assms obtain r where
    "record_error cr (sellerIndex (map init_stat sells)) (productIndex prods) r = Some e"
    unfolding run_error_def by (auto dest!: first_error_Some)
  then obtain it where "item_error cr (productIndex prods) it = Some e"
    by (auto simp: record_error_def split: option.splits dest!: first_error_Some)
  then show ?thesis by (rule item_error_cases)
qed

lemma handler_safe_run_error:
  "handler_safe cr prods recs \<Longrightarrow> run_error cr sells prods recs = None"
  by (auto simp: handler_safe_def run_error_def record_error_def first_error_None_iff list_all_iff
           split: option.splits)

section \<open>The report\<close>

lemma build_report_eq:
  "build_report cr cb sells prods recs =
     (case run_error cr sells prods recs of
        Some e \<Rightarrow> Inl e
      | None \<Rightarrow>
          if validPurchasesCount (final_state cr sells prods recs) = 0 then Inl NoValidPurchases
          else Inr (map (\<lambda>(index, sel).
                      make_entry sel
                        (assign_bonus cb
                           (length (rank_sellers (sellerStats (final_state cr sells prods recs))))
                           index sel))
                 (enumerate 0 (rank_sellers (sellerStats (final_state cr sells prods recs))))))"
  using sellers_with_sales_nonempty[of cr sells prods recs]
  by (auto simp: build_report_def aggregate_eq Let_def rank_sellers_def split: option.splits)

lemma analyzeSalesData_valid:
  "validate_data d = Inr (sells, prods, recs) \<Longrightarrow> validate_options opts = Inr (cr, cb) \<Longrightarrow>
   analyzeSalesData d opts = build_report cr cb sells prods recs"
  by (simp add: analyzeSalesData_def)

lemma build_report_errors:
  "build_report cr cb sells prods recs = Inl e \<Longrightarrow>
     e = NoValidPurchases \<or> e = TypeError \<or> (\<exists>x. e = Thrown x)"
  using run_error_cases[of cr sells prods recs e]
  by (auto simp: build_report_eq split: option.splits if_splits)

lemma analyzeSalesData_errors:
  "analyzeSalesData d opts = Inl e \<Longrightarrow>
     e \<in> {InvalidInputData, OptionsNotGiven, StrategiesMissing, StrategiesNotFunctions,
          NoValidPurchases, TypeError} \<or> (\<exists>x. e = Thrown x)"
  by (auto simp: analyzeSalesData_def validate_data_def validate_options_def
        split: sum.splits option.splits if_splits prod.splits option_value.splits
        dest: build_report_errors)

lemma map_enumerate_snd:
  "map (\<lambda>p. g (snd p)) (enumerate n xs) = map g xs"
  by (induction xs arbitrary: n) simp_all

lemma report_nth:
  assumes "validate_data d = Inr (sells, prods, recs)"
    and "validate_options opts = Inr (cr, cb)"
    and "analyzeSalesData d opts = Inr out"
  shows "length out = length (rank_sellers (sellerStats (final_state cr sells prods recs)))"
    and "i < length out \<Longrightarrow>
         out ! i = make_entry (rank_sellers (sellerStats (final_state cr sells prods recs)) ! i)
                     (assign_bonus cb (length out) i
                        (rank_sellers (sellerStats (final_state cr sells prods recs)) ! i))"
proof -
  let ?ranked = "rank_sellers (sellerStats (final_state cr sells prods recs))"
  have out: "out = map (\<lambda>(index, sel). make_entry sel (assign_bonus cb (length ?ranked) index sel))
                     (enumerate 0 ?ranked)"
    using assms(3)
    by (simp add: analyzeSalesData_valid[OF assms(1,2)] build_report_eq
          split: if_splits option.splits)
  show len: "length out = length ?ranked" by (simp add: out)
  show "i < length out \<Longrightarrow>
         out ! i = make_entry (?ranked ! i) (assign_bonus cb (length out) i (?ranked ! i))"
    unfolding len by (simp add: out nth_enumerate_eq)
qed

lemma filter_as_positions:
  "filter P xs = map (nth xs) (filter (\<lambda>j. P (xs ! j)) [0..<length xs])"
proof -
  have "filter P (map (nth xs) [0..<length xs]) =
          map (nth xs) (filter (\<lambda>j. P (xs ! j)) [0..<length xs])"
    by (simp add: filter_map comp_def)
  then show ?thesis by (simp add: map_nth)
qed

lemma distinct_map_sort_key:
  "distinct (map g (sort_key f xs)) = distinct (map g xs)"
  by (simp add: distinct_map)

text \<open>
  A seller with sales is the one its own id is indexed to.
\<close>

lemma with_sales_indexed:
  assumes "j < length sells"
    and "0 < sales_count (sellerStats (final_state cr sells prods recs) ! j)"
  shows "sellerIndex (map init_stat sells) (s_id (sells ! j)) = Some j"
    and "s_id (sells ! j) \<in> seller_id ` set recs"
proof -
  from assms have "filter (\<lambda>r. sellerIndex (map init_stat sells) (seller_id r) = Some j) recs \<noteq> []"
    by (simp add: sales_count_final_state)
  then obtain r where r: "r \<in> set recs" "sellerIndex (map init_stat sells) (seller_id r) = Some j"
    by (auto simp: filter_empty_conv)
  then have "s_id (sells ! j) = seller_id r" using sellerIndex_init_bound by blast
  then show "sellerIndex (map init_stat sells) (s_id (sells ! j)) = Some j"
    and "s_id (sells ! j) \<in> seller_id ` set recs" using r by auto
qed

lemma indexed_count:
  assumes "sellerIndex (map init_stat sells) (s_id (sells ! j)) = Some j"
  shows "filter (\<lambda>r. sellerIndex (map init_stat sells) (seller_id r) = Some j) recs =
         filter (\<lambda>r. seller_id r = s_id (sells ! j)) recs"
proof (rule filter_cong[OF refl])
  fix r
  show "(sellerIndex (map init_stat sells) (seller_id r) = Some j) = (seller_id r = s_id (sells ! j))"
    using assms sellerIndex_init_bound[of sells "seller_id r" j] by auto
qed

lemma with_sales_ids:
  fixes cr sells prods recs
  defines "stats \<equiv> sellerStats (final_state cr sells prods recs)"
  defines "withSales \<equiv> filter (\<lambda>s. sales_count s > 0) stats"
  shows "distinct (map stat_id withSales)"
    and "stat_id ` set withSales = seller_id ` set recs \<inter> s_id ` set sells"
    and "\<forall>s \<in> set withSales.
           sales_count s = length (filter (\<lambda>r. seller_id r = stat_id s) recs)"
proof -
  have len: "length stats = length sells" by (simp add: stats_def final_state_facts(1))
  let ?Q = "\<lambda>j. 0 < sales_count (stats ! j)"
  have ws: "withSales = map (nth stats) (filter ?Q [0..<length sells])"
    unfolding withSales_def using filter_as_positions[of "\<lambda>s. sales_count s > 0" stats] len by simp
  have sid: "\<And>j. j < length sells \<Longrightarrow> stat_id (stats ! j) = s_id (sells ! j)"
    by (simp add: stats_def stat_id_final_state)
  have idx: "\<And>j. j < length sells \<Longrightarrow> ?Q j \<Longrightarrow>
                sellerIndex (map init_stat sells) (s_id (sells ! j)) = Some j"
    unfolding stats_def by (rule with_sales_indexed(1))
  have "inj_on (\<lambda>j. stat_id (stats ! j)) (set (filter ?Q [0..<length sells]))"
  proof (rule inj_onI)
    fix i j
    assume "i \<in> set (filter ?Q [0..<length sells])" "j \<in> set (filter ?Q [0..<length sells])"
      and eq: "stat_id (stats ! i) = stat_id (stats ! j)"
    then have i: "i < length sells" "?Q i" and j: "j < length sells" "?Q j" by auto
    have "Some i = sellerIndex (map init_stat sells) (s_id (sells ! i))" using idx i by simp
    also have "\<dots> = sellerIndex (map init_stat sells) (s_id (sells ! j))"
      using eq sid i j by simp
    also have "\<dots> = Some j" using idx j by simp
    finally show "i = j" by simp
  qed
  then show "distinct (map stat_id withSales)"
    by (simp add: ws distinct_map comp_def)
  show "stat_id ` set withSales = seller_id ` set recs \<inter> s_id ` set sells"
  proof (intro equalityI subsetI)
    fix x assume "x \<in> stat_id ` set withSales"
    then obtain j where j: "j < length sells" "?Q j" "x = stat_id (stats ! j)"
      by (auto simp: ws)
    then have "x = s_id (sells ! j)" using sid by simp
    moreover have "s_id (sells ! j) \<in> seller_id ` set recs"
      using with_sales_indexed(2)[of j sells cr prods recs] j by (simp add: stats_def)
    ultimately show "x \<in> seller_id ` set recs \<inter> s_id ` set sells"
      using j by auto
  next
    fix x assume "x \<in> seller_id ` set recs \<inter> s_id ` set sells"
    then obtain r where r: "r \<in> set recs" "x = seller_id r" "seller_id r \<in> s_id ` set sells"
      by auto
    then obtain k where k: "sellerIndex (map init_stat sells) (seller_id r) = Some k"
      using sellerIndex_init_None[of sells "seller_id r"] by auto
    then have kb: "k < length sells" "s_id (sells ! k) = seller_id r"
      using sellerIndex_init_bound by blast+
    have "r \<in> set (filter (\<lambda>r. sellerIndex (map init_stat sells) (seller_id r) = Some k) recs)"
      using r k by simp
    then have "0 < length (filter (\<lambda>r. sellerIndex (map init_stat sells) (seller_id r) = Some k) recs)"
      by (rule length_pos_if_in_set)
    then have "?Q k" using kb by (simp add: stats_def sales_count_final_state)
    then have "stats ! k \<in> set withSales" using kb by (auto simp: ws)
    moreover have "stat_id (stats ! k) = x" using sid kb r by simp
    ultimately show "x \<in> stat_id ` set withSales" by blast
  qed
  show "\<forall>s \<in> set withSales.
           sales_count s = length (filter (\<lambda>r. seller_id r = stat_id s) recs)"
  proof
    fix s assume "s \<in> set withSales"
    then obtain j where j: "j < length sells" "?Q j" "s = stats ! j" by (auto simp: ws)
    have "sales_count s =
            length (filter (\<lambda>r. sellerIndex (map init_stat sells) (seller_id r) = Some j) recs)"
      using j by (simp add: stats_def sales_count_final_state)
    also have "\<dots> = length (filter (\<lambda>r. seller_id r = s_id (sells ! j)) recs)"
      by (simp add: indexed_count[OF idx[OF j(1,2)]])
    finally show "sales_count s = length (filter (\<lambda>r. seller_id r = stat_id s) recs)"
      using sid j by simp
  qed
qed

lemma round2_profit_sorted:
  "sorted_wrt (\<ge>) (map (\<lambda>s. round2 (profit s)) (sort_key (\<lambda>s. - profit s) xs))"
proof -
  have "sorted (map (\<lambda>s. - profit s) (sort_key (\<lambda>s. - profit s) xs))"
    by (rule sorted_sort_key)
  then have "sorted_wrt (\<lambda>a b. - profit a \<le> - profit b) (sort_key (\<lambda>s. - profit s) xs)"
    by (simp add: sorted_wrt_map)
  then have "sorted_wrt (\<lambda>a b. round2 (profit a) \<ge> round2 (profit b)) (sort_key (\<lambda>s. - profit s) xs)"
    by (rule sorted_wrt_mono_rel[rotated]) (simp add: round2_mono)
  then show ?thesis by (simp add: sorted_wrt_map)
qed








section \<open>Totals per seller\<close>

text \<open>
  The accumulators at the end of the loop, for sellers with pairwise different ids: the
  revenue is the sum of the totals of the seller's receipts, the profit the sum of the
  item profits of their valid items, the quantity of a SKU the sum over these items, the
  sales count the number of the receipts.
\<close>

lemma fold_record_effect_sold:
  "sold_quantity (products_sold (fold (record_effect cr pidx) rs sel)) sku =
     sold_quantity (products_sold sel) sku
       + sum_list (map (\<lambda>r. sum_list (map quantity
           (filter (\<lambda>it. item_sku it = sku) (filter (valid_item cr pidx) (items r))))) rs)"
  by (induction rs arbitrary: sel) (simp_all add: record_effect_def sold_quantity_add_items)

lemma sellerIndex_distinct:
  assumes "distinct (map s_id sells)" and "j < length sells"
  shows "sellerIndex (map init_stat sells) (s_id (sells ! j)) = Some j"
proof -
  have "s_id (sells ! j) \<in> s_id ` set sells" using assms(2) by simp
  then obtain k where k: "sellerIndex (map init_stat sells) (s_id (sells ! j)) = Some k"
    using sellerIndex_init_None[of sells "s_id (sells ! j)"] by auto
  then have "k < length sells" "s_id (sells ! k) = s_id (sells ! j)"
    using sellerIndex_init_bound by blast+
  then have "map s_id sells ! k = map s_id sells ! j" using assms(2) by simp
  then have "k = j"
    using assms \<open>k < length sells\<close> by (simp add: nth_eq_iff_index_eq del: nth_map)
  then show ?thesis using k by simp
qed

lemma final_state_totals:
  fixes recs :: "purchase_record list"
  assumes "distinct (map s_id sells)" and "j < length sells"
  defines "own \<equiv> filter (\<lambda>r. seller_id r = s_id (sells ! j)) recs"
  shows "revenue (sellerStats (final_state cr sells prods recs) ! j) = sum_list (map total_amount own)"
    and "profit (sellerStats (final_state cr sells prods recs) ! j) =
           sum_list (map (\<lambda>r. sum_list (map (item_profit cr (productIndex prods)) (items r))) own)"
    and "sold_quantity (products_sold (sellerStats (final_state cr sells prods recs) ! j)) sku =
           sum_list (map (\<lambda>r. sum_list (map quantity
             (filter (\<lambda>it. item_sku it = sku)
                (filter (valid_item cr (productIndex prods)) (items r))))) own)"
    and "sales_count (sellerStats (final_state cr sells prods recs) ! j) = length own"
proof -
  have own: "filter (\<lambda>r. sellerIndex (map init_stat sells) (seller_id r) = Some j) recs = own"
    unfolding own_def by (rule indexed_count[OF sellerIndex_distinct[OF assms(1,2)]])
  show "revenue (sellerStats (final_state cr sells prods recs) ! j) = sum_list (map total_amount own)"
    by (simp add: final_state_facts(2)[OF assms(2)] own fold_record_effect_revenue init_stat_def)
  show "profit (sellerStats (final_state cr sells prods recs) ! j) =
           sum_list (map (\<lambda>r. sum_list (map (item_profit cr (productIndex prods)) (items r))) own)"
    by (simp add: final_state_facts(2)[OF assms(2)] own fold_record_effect_profit init_stat_def)
  show "sold_quantity (products_sold (sellerStats (final_state cr sells prods recs) ! j)) sku =
           sum_list (map (\<lambda>r. sum_list (map quantity
             (filter (\<lambda>it. item_sku it = sku)
                (filter (valid_item cr (productIndex prods)) (items r))))) own)"
  proof -
    have "sold_quantity (products_sold (init_stat (sells ! j))) sku = 0"
      by (simp add: init_stat_def sold_quantity_def)
    then show ?thesis
      by (simp add: final_state_facts(2)[OF assms(2)] own fold_record_effect_sold)
  qed
  show "sales_count (sellerStats (final_state cr sells prods recs) ! j) = length own"
    by (simp add: final_state_facts(2)[OF assms(2)] own fold_record_effect_sales_count init_stat_def)
qed

section \<open>Skipped receipts and line items\<close>


lemma record_step_skip_unknown_item:
  "pidx (item_sku it) = None \<Longrightarrow>
   record_step cr sidx pidx (r\<lparr>items := pre @ it # post\<rparr>) st =
   record_step cr sidx pidx (r\<lparr>items := pre @ post\<rparr>) st"
  by (simp add: record_step_def Let_def item_step_unknown split: option.splits)

lemma final_state_skip_unknown_item:
  assumes "item_sku it \<notin> product_sku ` set prods"
  shows "final_state cr sells prods (rpre @ r\<lparr>items := pre @ it # post\<rparr> # rpost) =
         final_state cr sells prods (rpre @ r\<lparr>items := pre @ post\<rparr> # rpost)"
proof -
  have "productIndex prods (item_sku it) = None"
    using assms by (simp add: productIndex_None)
  then show ?thesis
    by (simp add: final_state_def Let_def record_step_skip_unknown_item)
qed








section \<open>The examples, evaluated\<close>

lemma shop_valid:
  "validate_data (Some shop_data) = Inr (shop_sellers, shop_products, shop_records)"
  by (simp add: validate_data_def shop_data_def shop_sellers_def shop_products_def shop_records_def)

lemma default_options_valid:
  "validate_options (Some default_options) = Inr (calculateSimpleRevenue, calculateBonusByProfit)"
  by (simp add: validate_options_def default_options_def)

lemma failing_options_valid:
  "validate_options (Some failing_options) = Inr (failing_revenue, failing_bonus)"
  by (simp add: validate_options_def failing_options_def)

lemma shop_report_eq:
  "analyzeSalesData (Some shop_data) (Some default_options) = Inr shop_report"
  by code_simp

lemma failing_report_eq:
  "analyzeSalesData (Some shop_data) (Some failing_options) = Inr failing_report"
  by code_simp

text \<open>
  A revenue strategy that throws \<^verbatim>\<open>null\<close> for one item: the \<^verbatim>\<open>catch\<close> raises a
  \<^verbatim>\<open>TypeError\<close> when it reads \<^verbatim>\<open>error.message\<close>, and that ends the run.
\<close>

lemma null_revenue_ends_run:
  "analyzeSalesData (Some shop_data)
     (Some \<lparr>calculateRevenue = Function null_revenue,
            calculateBonus = Function calculateBonusByProfit\<rparr>) = Inl TypeError"
  by code_simp

lemma shop_ordinary: "ordinary_input shop_records" "plain_input shop_records"
  by code_simp+

lemma shop_handler_safe:
  "handler_safe calculateSimpleRevenue shop_products shop_records"
  "handler_safe failing_revenue shop_products shop_records"
  by code_simp+

lemma shop_final_state:
  "aggregate calculateSimpleRevenue shop_sellers shop_products shop_records =
     Inr (final_state calculateSimpleRevenue shop_sellers shop_products shop_records)"
  "aggregate failing_revenue shop_sellers shop_products shop_records =
     Inr (final_state failing_revenue shop_sellers shop_products shop_records)"
  by (simp_all add: aggregate_eq handler_safe_run_error shop_handler_safe)

section \<open>The claims\<close>

subsection \<open>C1: what a line item adds to the accumulator\<close>

text \<open>
  Claim C1, as stated, has \<^verbatim>\<open>itemRevenue\<close> added to the seller's revenue. In
  \<^verbatim>\<open>src/main.js\<close> processing a line item leaves the revenue as it is; the revenue grows by
  \<^verbatim>\<open>record.total_amount\<close>, once per receipt. Here the reference strategy gives 40 for the
  item, and the revenue after the item is still 0, not 0 + 40; over the shop, seller 1
  ends with revenue 58 = 28 + 30, the totals of receipts 1 and 4, while the item revenues
  of the known SKUs are 8 and 20.
\<close>

theorem item_revenue_not_added_to_revenue:
  "calculateSimpleRevenue ex_item ex_product = Inr 40
   \<and> process_item calculateSimpleRevenue (productIndex [ex_product]) 0 ex_item ex_state =
       Inr \<lparr>sellerStats =
              [\<lparr>stat_id = ''seller_1'', name = ''Ann Lee'', revenue = 0, profit = 20,
                sales_count = 0, products_sold = [(''SKU_1'', 2)]\<rparr>],
            validPurchasesCount = 1, skippedPurchases = 0\<rparr>
   \<and> map revenue (sellerStats ex_state) = [0]
   \<and> map_sum id (\<lambda>st. map revenue (sellerStats st))
         (aggregate calculateSimpleRevenue shop_sellers shop_products shop_records) =
       Inr [58, 36, 0]"
  by code_simp

text \<open>
  Claim C1, amended. For a receipt \<open>r\<close> of a known seller (at position \<open>k\<close>) whose SKUs are
  not names of \<^verbatim>\<open>Object.prototype\<close> and none of whose items makes the \<^verbatim>\<open>catch\<close> raise, and
  for a line item \<open>it\<close> with an indexed SKU for which the revenue strategy returns
  \<open>itemRevenue\<close>: the item adds \<open>itemRevenue - purchase_price * quantity\<close> to the seller's
  profit and its quantity to \<^verbatim>\<open>products_sold[sku]\<close> (counted from 0 if absent), counts as
  one valid item, and leaves the revenue unchanged; the receipt adds its \<^verbatim>\<open>total_amount\<close>
  to the revenue and 1 to the sales count, the sum of the item profits of its valid items
  to the profit, and their quantities to \<^verbatim>\<open>products_sold\<close>.
\<close>

theorem line_item_accumulation:
  assumes "k < length (sellerStats st)"
    and "sidx (seller_id r) = Some k"
    and "list_all (\<lambda>i. plain_name (item_sku i) \<and> item_error cr pidx i = None) (items r)"
    and "pidx (item_sku it) = Some pd"
    and "cr it pd = Inr itemRevenue"
    and "plain_name (item_sku it)"
  shows "\<exists>st1 st2.
           process_item cr pidx k it st = Inr st1
         \<and> profit (sellerStats st1 ! k) =
             profit (sellerStats st ! k) + (itemRevenue - purchase_price pd * quantity it)
         \<and> sold_quantity (products_sold (sellerStats st1 ! k)) (item_sku it) =
             sold_quantity (products_sold (sellerStats st ! k)) (item_sku it) + quantity it
         \<and> revenue (sellerStats st1 ! k) = revenue (sellerStats st ! k)
         \<and> validPurchasesCount st1 = validPurchasesCount st + 1
         \<and> process_record cr sidx pidx r st = Inr st2
         \<and> revenue (sellerStats st2 ! k) = revenue (sellerStats st ! k) + total_amount r
         \<and> sales_count (sellerStats st2 ! k) = sales_count (sellerStats st ! k) + 1
         \<and> profit (sellerStats st2 ! k) =
             profit (sellerStats st ! k) + sum_list (map (item_profit cr pidx) (items r))
         \<and> (\<forall>sku. sold_quantity (products_sold (sellerStats st2 ! k)) sku =
               sold_quantity (products_sold (sellerStats st ! k)) sku
                 + sum_list (map quantity
                     (filter (\<lambda>i. item_sku i = sku) (filter (valid_item cr pidx) (items r)))))"
proof -
  have v: "valid_item cr pidx it" using assms(4,5) by (simp add: valid_item_def)
  have ip: "item_profit cr pidx it = itemRevenue - purchase_price pd * quantity it"
    using assms(4,5) by (simp add: item_profit_def)
  have ie: "item_error cr pidx it = None" using assms(4,5) by (simp add: item_error_def)
  have re: "record_error cr sidx pidx r = None"
    using assms(2,3) by (simp add: record_error_def first_error_None_iff list_all_iff)
  have s1: "process_item cr pidx k it st = Inr (item_step cr pidx k it st)"
    by (simp add: process_item_eq ie)
  have s2: "process_record cr sidx pidx r st = Inr (record_step cr sidx pidx r st)"
    by (simp add: process_record_eq re)
  have a: "profit (sellerStats (item_step cr pidx k it st) ! k) =
             profit (sellerStats st ! k) + (itemRevenue - purchase_price pd * quantity it)"
    and b: "sold_quantity (products_sold (sellerStats (item_step cr pidx k it st) ! k)) (item_sku it) =
             sold_quantity (products_sold (sellerStats st ! k)) (item_sku it) + quantity it"
    and c: "revenue (sellerStats (item_step cr pidx k it st) ! k) = revenue (sellerStats st ! k)"
    and d: "validPurchasesCount (item_step cr pidx k it st) = validPurchasesCount st + 1"
    using assms(1) by (simp_all add: item_step_valid[OF v] ip sold_quantity_add_sold)
  note rk = record_step_known[where sidx = sidx and r = r and k = k and st = st, OF assms(2,1)]
  have e: "revenue (sellerStats (record_step cr sidx pidx r st) ! k) =
             revenue (sellerStats st ! k) + total_amount r"
    and f: "sales_count (sellerStats (record_step cr sidx pidx r st) ! k) =
             sales_count (sellerStats st ! k) + 1"
    and g: "profit (sellerStats (record_step cr sidx pidx r st) ! k) =
             profit (sellerStats st ! k) + sum_list (map (item_profit cr pidx) (items r))"
    and h: "\<forall>sku. sold_quantity (products_sold (sellerStats (record_step cr sidx pidx r st) ! k)) sku =
               sold_quantity (products_sold (sellerStats st ! k)) sku
                 + sum_list (map quantity
                     (filter (\<lambda>i. item_sku i = sku) (filter (valid_item cr pidx) (items r))))"
    using assms(1) by (simp_all add: rk sold_quantity_add_items)
  show ?thesis using s1 s2 a b c d e f g h by blast
qed

theorem line_item_accumulation_witness:
  "0 < length (sellerStats ex_state)
   \<and> sellerIndex [init_stat ex_seller] (seller_id (ex_record 70)) = Some 0
   \<and> list_all (\<lambda>i. plain_name (item_sku i)
                 \<and> item_error calculateSimpleRevenue (productIndex [ex_product]) i = None)
        (items (ex_record 70))
   \<and> productIndex [ex_product] (item_sku ex_item) = Some ex_product
   \<and> calculateSimpleRevenue ex_item ex_product = Inr 40
   \<and> plain_name (item_sku ex_item)
   \<and> map_sum id (\<lambda>s. (profit (sellerStats s ! 0), revenue (sellerStats s ! 0), validPurchasesCount s))
        (process_item calculateSimpleRevenue (productIndex [ex_product]) 0 ex_item ex_state)
       = Inr (20, 0, 1)
   \<and> map_sum id (\<lambda>s. (profit (sellerStats s ! 0), revenue (sellerStats s ! 0),
                       sales_count (sellerStats s ! 0)))
        (process_record calculateSimpleRevenue (sellerIndex [init_stat ex_seller])
           (productIndex [ex_product]) (ex_record 70) ex_state)
       = Inr (20, 70, 1)"
proof -
  have h1: "0 < length (sellerStats ex_state)" by (simp add: ex_state_def)
  have h2: "sellerIndex [init_stat ex_seller] (seller_id (ex_record 70)) = Some 0"
    by (simp add: sellerIndex_def init_stat_def ex_seller_def ex_record_def)
  have h3: "list_all (\<lambda>i. plain_name (item_sku i)
                 \<and> item_error calculateSimpleRevenue (productIndex [ex_product]) i = None)
        (items (ex_record 70))"
    by code_simp
  have h4: "productIndex [ex_product] (item_sku ex_item) = Some ex_product"
    by (simp add: productIndex_def ex_product_def ex_item_def)
  have h5: "calculateSimpleRevenue ex_item ex_product = Inr 40"
    by (simp add: calculateSimpleRevenue_def ex_item_def round2_def floor_divide_numeral_rat)
  have h6: "plain_name (item_sku ex_item)" by code_simp
  have s0: "profit (sellerStats ex_state ! 0) = 0" "revenue (sellerStats ex_state ! 0) = 0"
    "sales_count (sellerStats ex_state ! 0) = 0" "validPurchasesCount ex_state = 0"
    "purchase_price ex_product = 10" "quantity ex_item = 2" "total_amount (ex_record 70) = 70"
    by (simp_all add: ex_state_def init_stat_def ex_product_def ex_item_def ex_record_def)
  have ip: "sum_list (map (item_profit calculateSimpleRevenue (productIndex [ex_product]))
              (items (ex_record 70))) = 20"
    using h4 h5 by (simp add: ex_record_def item_profit_def s0)
  from line_item_accumulation[where k = 0 and st = ex_state and pidx = "productIndex [ex_product]"
      and it = ex_item and pd = ex_product and cr = calculateSimpleRevenue and itemRevenue = 40
      and sidx = "sellerIndex [init_stat ex_seller]" and r = "ex_record 70",
      OF h1 h2 h3 h4 h5 h6]
  obtain st1 st2 where
    "process_item calculateSimpleRevenue (productIndex [ex_product]) 0 ex_item ex_state = Inr st1"
    "profit (sellerStats st1 ! 0) = 20" "revenue (sellerStats st1 ! 0) = 0"
    "validPurchasesCount st1 = 1"
    "process_record calculateSimpleRevenue (sellerIndex [init_stat ex_seller])
       (productIndex [ex_product]) (ex_record 70) ex_state = Inr st2"
    "revenue (sellerStats st2 ! 0) = 70" "sales_count (sellerStats st2 ! 0) = 1"
    "profit (sellerStats st2 ! 0) = 20"
    by (auto simp: s0 ip)
  then show ?thesis using h1 h2 h3 h4 h5 h6 by simp
qed

subsection \<open>C2: the reference bonus strategy\<close>

text \<open>
  Claim C2 gives the last place the bonus 0 also when it is one of the first three
  places. \<^verbatim>\<open>calculateBonusByProfit\<close> tests the index against 0, 1 and 2 before it tests for
  the last place: of three sellers the last (index 2) gets 0.10, of two sellers the last
  (index 1) gets 0.10. For five sellers the bonuses are those of the claim.
\<close>

theorem bonus_last_place_small_totals:
  "calculateBonusByProfit 2 3 seller = Inr (1 / 10)
 \<and> calculateBonusByProfit 1 2 seller = Inr (1 / 10)
 \<and> map (\<lambda>index. calculateBonusByProfit index 5 seller) [0, 1, 2, 3, 4] =
      [Inr (15 / 100), Inr (1 / 10), Inr (1 / 10), Inr (5 / 100), Inr 0]"
  by (simp add: calculateBonusByProfit_def)


subsection \<open>C3: the scenario with a single sale\<close>

text \<open>
  Claim C3: one seller, one product bought at 10, one receipt with one line item (sale
  price 20, quantity 2, discount 0), the receipt total being that of its item, 40. The
  run gives one entry with revenue 40, profit 20 and sales count 1, as the claim says,
  and with bonus 0.15 where the claim says 0: the sole seller is at index 0, which
  \<^verbatim>\<open>calculateBonusByProfit\<close> tests before the last place.
\<close>

theorem single_sale_scenario_bonus:
  "analyzeSalesData (Some (ex_data 40)) (Some default_options) =
     Inr [\<lparr>entry_seller_id = ''seller_1'', entry_name = ''Ann Lee'',
           entry_revenue = 40, entry_profit = 20, entry_sales_count = 1,
           top_products = [''SKU_1''], bonus = 15 / 100\<rparr>]
   \<and> calculateBonusByProfit 0 1 seller = Inr (15 / 100)"
proof
  show "analyzeSalesData (Some (ex_data 40)) (Some default_options) =
     Inr [\<lparr>entry_seller_id = ''seller_1'', entry_name = ''Ann Lee'',
           entry_revenue = 40, entry_profit = 20, entry_sales_count = 1,
           top_products = [''SKU_1''], bonus = 15 / 100\<rparr>]"
    by code_simp
  show "calculateBonusByProfit 0 1 seller = Inr (15 / 100)"
    by (simp add: calculateBonusByProfit_def)
qed

subsection \<open>C4: the top products\<close>




subsection \<open>C5: unknown sellers and unknown SKUs\<close>



subsection \<open>C6: the fatal error after aggregation\<close>



subsection \<open>C7: the required collections\<close>

text \<open>
  Claim C7, as stated, has \<^verbatim>\<open>customers\<close> among the collections whose absence or emptiness
  is fatal. \<^verbatim>\<open>src/main.js\<close> never reads \<^verbatim>\<open>data.customers\<close>: without it, or with an empty
  one, the run succeeds.
\<close>

theorem customers_not_checked_counterexample:
  "analyzeSalesData (Some ((ex_data 40)\<lparr>customers := None\<rparr>)) (Some default_options) =
     Inr [\<lparr>entry_seller_id = ''seller_1'', entry_name = ''Ann Lee'',
           entry_revenue = 40, entry_profit = 20, entry_sales_count = 1,
           top_products = [''SKU_1''], bonus = 3 / 20\<rparr>]
   \<and> analyzeSalesData (Some ((ex_data 40)\<lparr>customers := Some []\<rparr>)) (Some default_options) =
     Inr [\<lparr>entry_seller_id = ''seller_1'', entry_name = ''Ann Lee'',
           entry_revenue = 40, entry_profit = 20, entry_sales_count = 1,
           top_products = [''SKU_1''], bonus = 3 / 20\<rparr>]"
  by code_simp

text \<open>
  Claim C7, amended. If \<^verbatim>\<open>data\<close> is missing, or one of \<^verbatim>\<open>products\<close>, \<^verbatim>\<open>sellers\<close>,
  \<^verbatim>\<open>purchase_records\<close> is not an array or is empty, \<^verbatim>\<open>analyzeSalesData\<close> throws the error
  for invalid input data, whatever the options are (also when they are missing or
  invalid themselves: this is the first check, and no strategy is called). The result
  does not depend on \<^verbatim>\<open>customers\<close>.
\<close>

theorem required_collections_checked:
  "analyzeSalesData None opts = Inl InvalidInputData
 \<and> (products dt = None \<or> products dt = Some [] \<or> sellers dt = None \<or> sellers dt = Some []
      \<or> purchase_records dt = None \<or> purchase_records dt = Some [] \<longrightarrow>
      analyzeSalesData (Some dt) opts = Inl InvalidInputData)
 \<and> analyzeSalesData (Some (dt\<lparr>customers := c\<rparr>)) opts = analyzeSalesData (Some dt) opts"
  by (auto simp: analyzeSalesData_def validate_data_def split: option.splits)

theorem required_collections_checked_witness:
  "sellers ((ex_data 40)\<lparr>sellers := Some []\<rparr>) = Some []
   \<and> analyzeSalesData (Some ((ex_data 40)\<lparr>sellers := Some []\<rparr>)) None = Inl InvalidInputData"
  using required_collections_checked[of None "(ex_data 40)\<lparr>sellers := Some []\<rparr>"] by simp

subsection \<open>C8: order and entries of the report\<close>

text \<open>
  Claim C8. A returned report is sorted by profit, non-increasing; its seller ids are
  pairwise different and are exactly the ids of the input sellers that some receipt
  names; every entry has a positive \<^verbatim>\<open>sales_count\<close>, the number of receipts naming its
  seller (a sale being a receipt of a known seller, which is what \<^verbatim>\<open>sales_count\<close> counts).
\<close>

theorem report_sorted_one_entry_per_seller:
  assumes "validate_data d = Inr (sells, prods, recs)"
    and "validate_options opts = Inr (cr, cb)"
    and "analyzeSalesData d opts = Inr out"
  shows "sorted_wrt (\<ge>) (map entry_profit out)
       \<and> distinct (map entry_seller_id out)
       \<and> set (map entry_seller_id out) = seller_id ` set recs \<inter> s_id ` set sells
       \<and> (\<forall>e \<in> set out. 0 < entry_sales_count e
             \<and> entry_sales_count e = length (filter (\<lambda>r. seller_id r = entry_seller_id e) recs))"
proof -
  let ?stats = "sellerStats (final_state cr sells prods recs)"
  let ?ranked = "rank_sellers ?stats"
  let ?ws = "filter (\<lambda>s. sales_count s > 0) ?stats"
  have out: "out = map (\<lambda>(index, sel). make_entry sel (assign_bonus cb (length ?ranked) index sel))
                     (enumerate 0 ?ranked)"
    using assms(3)
    by (simp add: analyzeSalesData_valid[OF assms(1,2)] build_report_eq
          split: if_splits option.splits)
  have profits: "map entry_profit out = map (\<lambda>s. round2 (profit s)) ?ranked"
    unfolding out
    using map_enumerate_snd[of "\<lambda>s. round2 (profit s)" 0 ?ranked]
    by (simp add: case_prod_unfold make_entry_def comp_def)
  have ids: "map entry_seller_id out = map stat_id ?ranked"
    unfolding out
    using map_enumerate_snd[of stat_id 0 ?ranked]
    by (simp add: case_prod_unfold make_entry_def comp_def)
  have c1: "sorted_wrt (\<ge>) (map entry_profit out)"
    unfolding profits rank_sellers_def by (rule round2_profit_sorted)
  have c2: "distinct (map entry_seller_id out)"
    unfolding ids rank_sellers_def
    by (simp only: distinct_map_sort_key with_sales_ids(1))
  have c3: "set (map entry_seller_id out) = seller_id ` set recs \<inter> s_id ` set sells"
    unfolding ids rank_sellers_def
    using with_sales_ids(2)[of cr sells prods recs] by simp
  have c4: "\<forall>e \<in> set out. 0 < entry_sales_count e
             \<and> entry_sales_count e = length (filter (\<lambda>r. seller_id r = entry_seller_id e) recs)"
  proof
    fix e assume "e \<in> set out"
    then obtain p where p: "p \<in> set (enumerate 0 ?ranked)"
        "e = make_entry (snd p) (assign_bonus cb (length ?ranked) (fst p) (snd p))"
      unfolding out by (auto simp: case_prod_unfold)
    then have "snd p \<in> set ?ranked"
      by (metis in_set_zipE enumerate_eq_zip prod.collapse)
    then have mem: "snd p \<in> set ?ws" by (simp add: rank_sellers_def)
    then have pos: "0 < sales_count (snd p)" by simp
    have "sales_count (snd p) = length (filter (\<lambda>r. seller_id r = stat_id (snd p)) recs)"
      using with_sales_ids(3)[of cr sells prods recs] mem by blast
    then show "0 < entry_sales_count e
             \<and> entry_sales_count e = length (filter (\<lambda>r. seller_id r = entry_seller_id e) recs)"
      using pos by (simp add: p(2) make_entry_def)
  qed
  show ?thesis using c1 c2 c3 c4 by blast
qed

theorem report_sorted_one_entry_per_seller_witness:
  "validate_data (Some shop_data) = Inr (shop_sellers, shop_products, shop_records)
   \<and> validate_options (Some default_options) = Inr (calculateSimpleRevenue, calculateBonusByProfit)
   \<and> analyzeSalesData (Some shop_data) (Some default_options) = Inr shop_report
   \<and> sorted_wrt (\<ge>) (map entry_profit shop_report)
   \<and> distinct (map entry_seller_id shop_report)
   \<and> set (map entry_seller_id shop_report) = seller_id ` set shop_records \<inter> s_id ` set shop_sellers"
  using report_sorted_one_entry_per_seller[OF shop_valid default_options_valid shop_report_eq]
    shop_valid default_options_valid shop_report_eq
  by blast


subsection \<open>C9: exceptions of the strategies\<close>

text \<open>
  Claim C9, as stated, lets an exception of the revenue strategy abort the run.
  \<^verbatim>\<open>src/main.js\<close> calls the revenue strategy inside a \<^verbatim>\<open>try\<close> whose \<^verbatim>\<open>catch\<close> logs the
  message of the exception: with a revenue strategy that throws an \<^verbatim>\<open>Error\<close> for \<^verbatim>\<open>SKU_2\<close>
  the run over the shop returns a report, in which seller 1 has the profit of its other
  item.
\<close>

theorem revenue_exception_not_fatal_counterexample:
  "failing_revenue (hd (items shop_receipt_1)) (shop_products ! 1) = Inl (OtherValue ''no price list'')
   \<and> analyzeSalesData (Some shop_data)
        (Some \<lparr>calculateRevenue = Function failing_revenue,
               calculateBonus = Function calculateBonusByProfit\<rparr>) =
      Inr [\<lparr>entry_seller_id = ''seller_2'', entry_name = ''Bob Ray'',
         entry_revenue = 36, entry_profit = 16, entry_sales_count = 1,
         top_products = [''SKU_1''], bonus = 3 / 20\<rparr>,
      \<lparr>entry_seller_id = ''seller_1'', entry_name = ''Ann Lee'',
         entry_revenue = 58, entry_profit = 10, entry_sales_count = 2,
         top_products = [''SKU_1''], bonus = 1 / 10\<rparr>]"
  by code_simp

text \<open>
  Claim C9, amended. Whatever the bonus strategy throws for the seller at position
  \<open>i\<close>, that entry gets bonus 0 and no top products, and otherwise the strategy's value
  and the top products; the other fields of the entry, and the other entries, do not
  depend on it (seller ids and SKUs not being names of \<^verbatim>\<open>Object.prototype\<close>, SKUs not
  being array indexes). If the revenue strategy throws, for a line item, a value whose
  \<^verbatim>\<open>message\<close> can be read, the item is skipped (the state is unchanged) and the run goes
  on: when that holds of every throw, the run ends with a report or with the error for
  "no valid purchases". What happens when the revenue strategy throws \<^verbatim>\<open>null\<close> or
  \<^verbatim>\<open>undefined\<close> is not part of the statement.
\<close>

theorem strategy_exception_policy:
  assumes "validate_data d = Inr (sells, prods, recs)"
    and "validate_options opts = Inr (cr, cb)"
  shows "(ordinary_input recs \<and> analyzeSalesData d opts = Inr out
            \<and> aggregate cr sells prods recs = Inr st \<and> i < length out
            \<and> sel = rank_sellers (sellerStats st) ! i \<longrightarrow>
            out ! i = make_entry sel
              (case cb i (length out) sel of
                 Inl e \<Rightarrow> (0, [])
               | Inr b \<Rightarrow> (b, top_products_of (products_sold sel))))
       \<and> (productIndex prods (item_sku it) = Some pd \<and> cr it pd = Inl e
            \<and> read_message e = None \<longrightarrow>
            process_item cr (productIndex prods) k it st' = Inr st')
       \<and> (plain_input recs \<and> handler_safe cr prods recs \<and> isl (analyzeSalesData d opts) \<longrightarrow>
            analyzeSalesData d opts = Inl NoValidPurchases)"
proof (intro conjI impI)
  assume a: "ordinary_input recs \<and> analyzeSalesData d opts = Inr out
            \<and> aggregate cr sells prods recs = Inr st \<and> i < length out
            \<and> sel = rank_sellers (sellerStats st) ! i"
  then have st: "st = final_state cr sells prods recs"
    using aggregate_Inr[of cr sells prods recs st] by simp
  show "out ! i = make_entry sel
              (case cb i (length out) sel of
                 Inl e \<Rightarrow> (0, [])
               | Inr b \<Rightarrow> (b, top_products_of (products_sold sel)))"
    using a st report_nth(2)[OF assms, of out i]
    by (simp add: assign_bonus_def split: sum.splits)
next
  assume "productIndex prods (item_sku it) = Some pd \<and> cr it pd = Inl e
            \<and> read_message e = None"
  then show "process_item cr (productIndex prods) k it st' = Inr st'"
    by (simp add: process_item_def)
next
  assume "plain_input recs \<and> handler_safe cr prods recs \<and> isl (analyzeSalesData d opts)"
  then show "analyzeSalesData d opts = Inl NoValidPurchases"
    using handler_safe_run_error[of cr prods recs sells]
    by (auto simp: analyzeSalesData_valid[OF assms] build_report_eq split: if_splits)
qed

theorem strategy_exception_policy_witness:
  "validate_data (Some shop_data) = Inr (shop_sellers, shop_products, shop_records)
   \<and> validate_options (Some failing_options) = Inr (failing_revenue, failing_bonus)
   \<and> ordinary_input shop_records
   \<and> analyzeSalesData (Some shop_data) (Some failing_options) = Inr failing_report
   \<and> aggregate failing_revenue shop_sellers shop_products shop_records =
       Inr (final_state failing_revenue shop_sellers shop_products shop_records)
   \<and> failing_bonus 1 (length failing_report)
        (rank_sellers (sellerStats (final_state failing_revenue shop_sellers shop_products shop_records)) ! 1)
       = Inl (OtherValue ''no bonus table'')
   \<and> bonus (failing_report ! 1) = 0 \<and> top_products (failing_report ! 1) = []
   \<and> productIndex shop_products (item_sku (hd (items shop_receipt_1))) = Some (shop_products ! 1)
   \<and> failing_revenue (hd (items shop_receipt_1)) (shop_products ! 1) = Inl (OtherValue ''no price list'')
   \<and> read_message (OtherValue ''no price list'') = None
   \<and> process_item failing_revenue (productIndex shop_products) 0 (hd (items shop_receipt_1)) ex_state
       = Inr ex_state
   \<and> plain_input shop_records
   \<and> handler_safe failing_revenue shop_products shop_records
   \<and> \<not> isl (analyzeSalesData (Some shop_data) (Some failing_options))"
proof -
  let ?sel = "rank_sellers (sellerStats (final_state failing_revenue shop_sellers shop_products shop_records)) ! 1"
  let ?it = "hd (items shop_receipt_1)"
  have len: "1 < length failing_report" by (simp add: failing_report_def)
  have fb: "failing_bonus 1 (length failing_report) ?sel = Inl (OtherValue ''no bonus table'')"
    by (simp add: failing_bonus_def)
  have pi: "productIndex shop_products (item_sku ?it) = Some (shop_products ! 1)"
    by (simp add: productIndex_def shop_products_def shop_receipt_1_def)
  have fr: "failing_revenue ?it (shop_products ! 1) = Inl (OtherValue ''no price list'')"
    by (simp add: failing_revenue_def shop_receipt_1_def)
  have rm: "read_message (OtherValue ''no price list'') = None" by simp
  have ni: "\<not> isl (analyzeSalesData (Some shop_data) (Some failing_options))"
    by (simp add: failing_report_eq)
  note c = strategy_exception_policy[OF shop_valid failing_options_valid,
      of failing_report "final_state failing_revenue shop_sellers shop_products shop_records"
         1 ?sel ?it "shop_products ! 1" "OtherValue ''no price list''" 0 ex_state]
  from c shop_ordinary(1) failing_report_eq shop_final_state(2) len
  have "failing_report ! 1 = make_entry ?sel
              (case failing_bonus 1 (length failing_report) ?sel of
                 Inl e \<Rightarrow> (0, [])
               | Inr b \<Rightarrow> (b, top_products_of (products_sold ?sel)))" by blast
  then have b: "bonus (failing_report ! 1) = 0 \<and> top_products (failing_report ! 1) = []"
    by (simp add: failing_bonus_def make_entry_def)
  from c pi fr rm
  have p: "process_item failing_revenue (productIndex shop_products) 0 ?it ex_state = Inr ex_state"
    by blast
  show ?thesis
    using shop_valid failing_options_valid shop_ordinary(1) failing_report_eq shop_final_state(2)
      fb b pi fr rm p shop_ordinary(2) shop_handler_safe(2) ni by blast
qed

subsection \<open>C10: the second error branch\<close>

text \<open>
  Claim C10. \<^verbatim>\<open>analyzeSalesData\<close> never throws the error for "no sellers with sales":
  when at least one line item was processed, some seller has a positive
  \<^verbatim>\<open>sales_count\<close>, so the array of sellers with sales is not empty. This is said of the
  state after the loops when no exception leaves them (\<open>final_state\<close>), and of the state
  \<open>aggregate\<close> returns.
\<close>

theorem no_sales_branch_unreachable: "analyzeSalesData d opts \<noteq> Inl NoSalesData
   \<and> (0 < validPurchasesCount (final_state cr sells prods recs) \<longrightarrow>
        filter (\<lambda>s. sales_count s > 0) (sellerStats (final_state cr sells prods recs)) \<noteq> [])
   \<and> (aggregate cr sells prods recs = Inr st \<and> 0 < validPurchasesCount st \<longrightarrow>
        filter (\<lambda>s. sales_count s > 0) (sellerStats st) \<noteq> [])"
proof (intro conjI)
  show "analyzeSalesData d opts \<noteq> Inl NoSalesData"
    using analyzeSalesData_errors[of d opts NoSalesData] by auto
  show "0 < validPurchasesCount (final_state cr sells prods recs) \<longrightarrow>
        filter (\<lambda>s. sales_count s > 0) (sellerStats (final_state cr sells prods recs)) \<noteq> []"
    using sellers_with_sales_nonempty by blast
  show "aggregate cr sells prods recs = Inr st \<and> 0 < validPurchasesCount st \<longrightarrow>
        filter (\<lambda>s. sales_count s > 0) (sellerStats st) \<noteq> []"
    using sellers_with_sales_nonempty[of cr sells prods recs]
      aggregate_Inr[of cr sells prods recs st] by auto
qed

theorem no_sales_branch_unreachable_witness:
  "aggregate calculateSimpleRevenue shop_sellers shop_products shop_records =
     Inr (final_state calculateSimpleRevenue shop_sellers shop_products shop_records)
   \<and> 0 < validPurchasesCount (final_state calculateSimpleRevenue shop_sellers shop_products shop_records)
   \<and> filter (\<lambda>s. sales_count s > 0)
        (sellerStats (final_state calculateSimpleRevenue shop_sellers shop_products shop_records)) \<noteq> []"
proof -
  have h: "0 < validPurchasesCount (final_state calculateSimpleRevenue shop_sellers shop_products shop_records)"
    by code_simp
  from no_sales_branch_unreachable[of "Some shop_data" "Some default_options" calculateSimpleRevenue
      shop_sellers shop_products shop_records
      "final_state calculateSimpleRevenue shop_sellers shop_products shop_records"]
    shop_final_state(1) h
  show ?thesis by blast
qed

end
